theory Spec2Isabelle
  imports Main "HOL-Library.Char_ord" "HOL-Library.List_Lexorder"
begin

section \<open>Python strings\<close>

text \<open>
  A Python \<open>str\<close> is modelled as a \<open>string\<close> whose characters are the code points
  below 256.  The functions of this section are the library operations the source calls
  on strings, written out so that every definition computes.
\<close>

datatype py_error = KeyError | IndexError | ValueError | TypeError

text \<open>\<open>c.isspace()\<close>, which is also the class \<open>\s\<close> of \<open>re\<close> and what \<open>strip()\<close> removes.\<close>

definition isspace :: "char \<Rightarrow> bool" where
  "isspace c =
     (let n = (of_char c :: nat)
      in (9 \<le> n \<and> n \<le> 13) \<or> (28 \<le> n \<and> n \<le> 32) \<or> n = 133 \<or> n = 160)"

text \<open>\<open>c.isdigit()\<close>: the decimal digits and the superscripts 1, 2, 3 of Latin-1.\<close>

definition isdigit :: "char \<Rightarrow> bool" where
  "isdigit c =
     (let n = (of_char c :: nat)
      in (48 \<le> n \<and> n \<le> 57) \<or> n = 178 \<or> n = 179 \<or> n = 185)"

text \<open>\<open>s.strip()\<close>\<close>

definition strip :: "string \<Rightarrow> string" where
  "strip s = rev (dropWhile isspace (rev (dropWhile isspace s)))"

text \<open>\<open>re.compile(r"\s+").sub(" ", s)\<close>: every maximal run of whitespace becomes one space.\<close>

function collapse_ws :: "string \<Rightarrow> string" where
  "collapse_ws [] = []"
| "collapse_ws (c # cs) =
     (if isspace c then CHR '' '' # collapse_ws (dropWhile isspace cs)
      else c # collapse_ws cs)"
  by pat_completeness auto
termination
  by (relation "measure length") (auto simp: length_dropWhile_le less_Suc_eq_le)

text \<open>\<open>s.startswith(p)\<close>\<close>

definition startswith :: "string \<Rightarrow> string \<Rightarrow> bool" where
  "startswith s p = (take (length p) s = p)"

text \<open>\<open>sub in s\<close>\<close>

fun str_in :: "string \<Rightarrow> string \<Rightarrow> bool" where
  "str_in sub [] = (sub = [])"
| "str_in sub (c # cs) = (startswith (c # cs) sub \<or> str_in sub cs)"

text \<open>\<open>s.find(sub)\<close>, with \<open>None\<close> for Python's \<open>-1\<close>.\<close>

fun str_find :: "string \<Rightarrow> string \<Rightarrow> nat option" where
  "str_find sub [] = (if sub = [] then Some 0 else None)"
| "str_find sub (c # cs) =
     (if startswith (c # cs) sub then Some 0 else map_option Suc (str_find sub cs))"

text \<open>\<open>s.index(sub, start)\<close>, which raises \<open>ValueError\<close> when \<open>sub\<close> is not found.\<close>

definition str_index :: "string \<Rightarrow> string \<Rightarrow> nat \<Rightarrow> py_error + nat" where
  "str_index s sub start =
     (if length s < start then Inl ValueError
      else case str_find sub (drop start s) of
             None \<Rightarrow> Inl ValueError
           | Some i \<Rightarrow> Inr (start + i))"

text \<open>\<open>s.count(d)\<close> for a separator \<open>d\<close> of one character.\<close>

definition count_chr :: "char \<Rightarrow> string \<Rightarrow> nat" where
  "count_chr d s = length (filter (\<lambda>c. c = d) s)"

text \<open>\<open>s.split(d)\<close> for a separator \<open>d\<close> of one character.\<close>

fun split_chr :: "char \<Rightarrow> string \<Rightarrow> string list" where
  "split_chr d [] = [[]]"
| "split_chr d (c # cs) =
     (if c = d then [] # split_chr d cs
      else case split_chr d cs of
             [] \<Rightarrow> [[c]]
           | p # ps \<Rightarrow> (c # p) # ps)"


section \<open>The review records (report/models.py)\<close>

record RatReviewManufacturerEvidence =
  ev_group :: "string option"
  ev_name :: string

record RatReviewAnalyticalSensitivity =
  sens_name :: string
  compliant :: bool
  sens_comment :: "string option"

record RatReviewBatch =
  batch :: "string option"
  analytical_sensitivities :: "RatReviewAnalyticalSensitivity list"

record RatReviewEntry =
  artg :: "string option"
  comment :: "string option"
  sponsor :: "string option"
  manufacturer :: "string option"
  product_names :: "string list"
  batches :: "RatReviewBatch list"
  manufacturer_evidence :: "RatReviewManufacturerEvidence list"

text \<open>\<open>RatReviewBatch.all_compliant\<close>\<close>

fun all_compliant_loop :: "RatReviewAnalyticalSensitivity list \<Rightarrow> bool" where
  "all_compliant_loop [] = True"
| "all_compliant_loop (i # rest) = (if \<not> compliant i then False else all_compliant_loop rest)"

definition all_compliant :: "RatReviewBatch \<Rightarrow> bool" where
  "all_compliant b = all_compliant_loop (analytical_sensitivities b)"

section \<open>Folding rows into entries (report/pdf_table.py, PdfTableToRatReviewEntries)\<close>

text \<open>
  A row is what \<open>get_row\<close> hands over: one string for each of the ten columns.  A cell
  after \<open>_norm\<close> is \<open>None\<close>, a boolean or a non-empty string.  A Python dictionary that is
  iterated (the entry and batch accumulators) is an association list in insertion order;
  the legend \<open>indicators\<close>, which is only looked up, is a map.
\<close>

record row =
  row_artg :: string
  row_sponsor :: string
  row_manufacturer :: string
  row_name :: string
  row_batch :: string
  row_wild :: string
  row_delta :: string
  row_omicron :: string
  row_quality :: string
  row_provided :: string

datatype cell = NoneV | BoolV bool | StrV string

type_synonym indicators = "string \<rightharpoonup> string"
type_synonym pydict = "(string \<times> string) list"

text \<open>Python's truth value of a cell, and \<open>str(value)\<close>.\<close>

fun truthy :: "cell \<Rightarrow> bool" where
  "truthy NoneV = False"
| "truthy (BoolV b) = b"
| "truthy (StrV s) = (s \<noteq> [])"

fun str_of :: "cell \<Rightarrow> string" where
  "str_of NoneV = ''None''"
| "str_of (BoolV True) = ''True''"
| "str_of (BoolV False) = ''False''"
| "str_of (StrV s) = s"

text \<open>\<open>_norm\<close>\<close>

definition norm :: "string \<Rightarrow> cell" where
  "norm v =
     (let with_spaces = collapse_ws v;
          result = strip with_spaces
      in if result = ''yes'' then BoolV True
         else if result = ''no'' then BoolV False
         else if result = [] then NoneV
         else StrV result)"

text \<open>\<open>_norm_name\<close>\<close>

definition norm_name :: "string \<Rightarrow> string \<Rightarrow> bool \<times> cell" where
  "norm_name v multiple_name_indicator =
     (let with_spaces = collapse_ws v;
          result = strip with_spaces
      in if result \<noteq> [] \<and> with_spaces \<noteq> [] \<and> startswith with_spaces multiple_name_indicator
         then (True, StrV result)
         else if result = [] then (False, NoneV)
         else (False, StrV result))"

text \<open>\<open>container[key] = v\<close>: an existing key keeps its place, a new key goes last.\<close>

fun dict_set :: "('k \<times> 'v) list \<Rightarrow> 'k \<Rightarrow> 'v \<Rightarrow> ('k \<times> 'v) list" where
  "dict_set [] key v = [(key, v)]"
| "dict_set (kv # rest) key v =
     (if fst kv = key then (key, v) # rest else kv # dict_set rest key v)"

text \<open>
  \<open>_dict_add\<close>: the key is created with the empty string when missing, the value is
  appended after a space unless it is \<open>None\<close>, and the stored string is stripped.
\<close>

definition dict_add :: "pydict \<Rightarrow> string \<Rightarrow> cell \<Rightarrow> pydict" where
  "dict_add container key v =
     (let old = (case map_of container key of None \<Rightarrow> [] | Some s \<Rightarrow> s);
          appended = old @ (if v \<noteq> NoneV then '' '' @ str_of v else [])
      in dict_set container key (strip appended))"

text \<open>
  \<open>_list_add\<close>: \<open>container[-1]\<close> raises on an empty list, and \<open>" " + (value or "")\<close>
  raises when the value is \<open>True\<close>.
\<close>

definition list_add :: "string list \<Rightarrow> cell \<Rightarrow> py_error + string list" where
  "list_add container v =
     (if container = [] then Inl IndexError
      else case v of
             BoolV True \<Rightarrow> Inl TypeError
           | StrV s \<Rightarrow> Inr (butlast container @ [strip (last container @ '' '' @ s)])
           | _ \<Rightarrow> Inr (butlast container @ [strip (last container @ '' '')]))"

subsection \<open>\<open>_build_entry\<close>\<close>

text \<open>The loop over the evidence slots, with its accumulator and the current group.\<close>

definition evidence_of :: "string option \<Rightarrow> string \<Rightarrow> RatReviewManufacturerEvidence list" where
  "evidence_of g vals =
     map (\<lambda>v. \<lparr>ev_group = g, ev_name = v\<rparr>) (split_chr CHR '','' vals)"

fun build_evidence ::
  "RatReviewManufacturerEvidence list \<Rightarrow> string option \<Rightarrow> string list \<Rightarrow>
   py_error + RatReviewManufacturerEvidence list" where
  "build_evidence acc current_group [] = Inr acc"
| "build_evidence acc current_group (item # rest) =
     (if item = [] then build_evidence acc current_group rest
      else let colon_count = count_chr CHR '':'' item
           in if colon_count = 1 then
                (case split_chr CHR '':'' item of
                   [g, vals] \<Rightarrow> build_evidence (acc @ evidence_of (Some g) vals) (Some g) rest
                 | _ \<Rightarrow> Inl ValueError)
              else if colon_count > 1 then Inl ValueError
              else build_evidence (acc @ evidence_of current_group item) current_group rest)"

text \<open>The loop over the fields of one batch slot.\<close>

definition build_test :: "string \<Rightarrow> string \<Rightarrow> string \<times> string \<Rightarrow> RatReviewAnalyticalSensitivity" where
  "build_test indicator_review_yes indicator_review_no kv =
     (let key = fst kv; v = snd kv
      in if v = indicator_review_yes then
           \<lparr>sens_name = key, compliant = True, sens_comment = None\<rparr>
         else if v = indicator_review_no then
           \<lparr>sens_name = key, compliant = False, sens_comment = None\<rparr>
         else \<lparr>sens_name = key, compliant = False, sens_comment = Some v\<rparr>)"

definition build_batch :: "string \<Rightarrow> string \<Rightarrow> pydict \<Rightarrow> RatReviewBatch" where
  "build_batch indicator_review_yes indicator_review_no item =
     \<lparr>batch = map_of item ''batch'',
      analytical_sensitivities =
        map (build_test indicator_review_yes indicator_review_no)
          (filter (\<lambda>kv. fst kv \<noteq> ''batch'') item)\<rparr>"

definition build_entry ::
  "pydict \<Rightarrow> string list \<Rightarrow> pydict list \<Rightarrow> string list \<Rightarrow> indicators \<Rightarrow>
   py_error + RatReviewEntry" where
  "build_entry entry names batch_slots evidence inds =
     (case build_evidence [] None evidence of
        Inl e \<Rightarrow> Inl e
      | Inr evs \<Rightarrow>
         (case inds ''yes'' of
            None \<Rightarrow> Inl KeyError
          | Some indicator_review_yes \<Rightarrow>
             (case inds ''no'' of
                None \<Rightarrow> Inl KeyError
              | Some indicator_review_no \<Rightarrow>
                 Inr \<lparr>artg = map_of entry ''artg'',
                      comment = map_of entry ''artg_comment'',
                      sponsor = map_of entry ''sponsor'',
                      manufacturer = map_of entry ''manufacturer'',
                      product_names = filter (\<lambda>n. n \<noteq> [] \<and> strip n \<noteq> []) names,
                      batches = map (build_batch indicator_review_yes indicator_review_no) batch_slots,
                      manufacturer_evidence = evs\<rparr>)))"

subsection \<open>\<open>build\<close>\<close>

record build_state =
  entries :: "RatReviewEntry list"
  current_entry :: pydict
  current_names :: "string list"
  current_batches :: "pydict list"
  current_evidence :: "string list"

definition init_state :: build_state where
  "init_state =
     \<lparr>entries = [], current_entry = [], current_names = [], current_batches = [],
      current_evidence = []\<rparr>"

text \<open>
  The test of the identifier cell: the pair is \<open>(artg, artg_comment)\<close>.
  \<open>all(c.isdigit() for c in artg)\<close> iterates over \<open>artg\<close>, which raises when the
  cell was normalised to \<open>True\<close>.
\<close>

definition split_artg :: "cell \<Rightarrow> py_error + cell \<times> cell" where
  "split_artg a =
     (if truthy a then
        (case a of
           StrV s \<Rightarrow> if \<not> list_all isdigit s then Inr (NoneV, a) else Inr (a, NoneV)
         | _ \<Rightarrow> Inl TypeError)
      else Inr (a, NoneV))"

text \<open>\<open>if artg and current_entry:\<close> store the current entry and reset.\<close>

definition close_entry :: "indicators \<Rightarrow> cell \<Rightarrow> build_state \<Rightarrow> py_error + build_state" where
  "close_entry inds a st =
     (if truthy a \<and> current_entry st \<noteq> [] then
        (case build_entry (current_entry st) (current_names st) (current_batches st)
                (current_evidence st) inds of
           Inl e \<Rightarrow> Inl e
         | Inr en \<Rightarrow>
             Inr \<lparr>entries = entries st @ [en], current_entry = [], current_names = [],
                  current_batches = [], current_evidence = []\<rparr>)
      else Inr st)"

text \<open>
  The four cursors: a fresh entry accumulator, a new name slot, a new batch slot, a new
  evidence slot.  \<open>":" in provided\<close> is reached only for a true \<open>provided\<close> and raises
  when that is \<open>True\<close> rather than a string.
\<close>

definition colon_in :: "cell \<Rightarrow> py_error + bool" where
  "colon_in v = (case v of StrV s \<Rightarrow> Inr (str_in '':'' s) | _ \<Rightarrow> Inl TypeError)"

definition open_slots ::
  "cell \<Rightarrow> bool \<Rightarrow> cell \<Rightarrow> cell \<Rightarrow> cell \<Rightarrow> build_state \<Rightarrow> py_error + build_state" where
  "open_slots a is_new_name nm b provided st =
     (let st1 = (if truthy a then st\<lparr>current_entry := []\<rparr> else st);
          st2 = (if \<not> truthy nm \<or> current_names st1 = [] \<or> is_new_name
                 then st1\<lparr>current_names := current_names st1 @ [[]]\<rparr> else st1);
          st3 = (if truthy b
                 then st2\<lparr>current_batches := current_batches st2 @ [[]]\<rparr> else st2)
      in case (if \<not> truthy provided \<or> current_evidence st3 = [] then Inr True
               else colon_in provided) of
           Inl e \<Rightarrow> Inl e
         | Inr new_group \<Rightarrow>
             Inr (if new_group
                  then st3\<lparr>current_evidence := current_evidence st3 @ [[]]\<rparr> else st3))"

text \<open>The appends to the entry accumulator and to the last slot of each sequence.\<close>

definition add_entry_fields :: "pydict \<Rightarrow> cell \<Rightarrow> cell \<Rightarrow> cell \<Rightarrow> cell \<Rightarrow> pydict" where
  "add_entry_fields e a sp mf artg_comment =
     dict_add (dict_add (dict_add (dict_add e ''artg'' a) ''sponsor'' sp)
       ''manufacturer'' mf) ''artg_comment'' artg_comment"

definition add_batch_fields :: "pydict \<Rightarrow> cell \<Rightarrow> cell \<Rightarrow> cell \<Rightarrow> cell \<Rightarrow> cell \<Rightarrow> pydict" where
  "add_batch_fields d b wild delta omicron quality =
     dict_add (dict_add (dict_add (dict_add (dict_add d ''batch'' b) ''wild'' wild)
       ''delta'' delta) ''omicron'' omicron) ''quality'' quality"

definition add_fields ::
  "cell \<Rightarrow> cell \<Rightarrow> cell \<Rightarrow> cell \<Rightarrow> cell \<Rightarrow> cell \<Rightarrow> cell \<Rightarrow> cell \<Rightarrow> cell \<Rightarrow> cell \<Rightarrow> cell \<Rightarrow>
   build_state \<Rightarrow> py_error + build_state" where
  "add_fields a sp mf artg_comment nm b wild delta omicron quality provided st =
     (let e = add_entry_fields (current_entry st) a sp mf artg_comment
      in case list_add (current_names st) nm of
           Inl err \<Rightarrow> Inl err
         | Inr names \<Rightarrow>
            (if current_batches st = [] then Inl IndexError
             else
               let slots = butlast (current_batches st) @
                     [add_batch_fields (last (current_batches st)) b wild delta omicron quality]
               in case list_add (current_evidence st) provided of
                    Inl err \<Rightarrow> Inl err
                  | Inr evidence \<Rightarrow>
                      Inr (st\<lparr>current_entry := e, current_names := names,
                               current_batches := slots, current_evidence := evidence\<rparr>)))"

text \<open>The body of the loop over the rows.\<close>

definition build_row ::
  "indicators \<Rightarrow> string \<Rightarrow> build_state \<Rightarrow> row \<Rightarrow> py_error + build_state" where
  "build_row inds multi_product_indicator st item =
     (let a0 = norm (row_artg item);
          sp = norm (row_sponsor item);
          mf = norm (row_manufacturer item);
          nn = norm_name (row_name item) multi_product_indicator;
          b = norm (row_batch item);
          wild = norm (row_wild item);
          delta = norm (row_delta item);
          omicron = norm (row_omicron item);
          quality = norm (row_quality item);
          provided = norm (row_provided item)
      in case split_artg a0 of
           Inl e \<Rightarrow> Inl e
         | Inr (a, artg_comment) \<Rightarrow>
            (case close_entry inds a st of
               Inl e \<Rightarrow> Inl e
             | Inr st1 \<Rightarrow>
                (case open_slots a (fst nn) (snd nn) b provided st1 of
                   Inl e \<Rightarrow> Inl e
                 | Inr st2 \<Rightarrow>
                     add_fields a sp mf artg_comment (snd nn) b wild delta omicron quality
                       provided st2)))"

fun build_loop ::
  "indicators \<Rightarrow> string \<Rightarrow> build_state \<Rightarrow> row list \<Rightarrow> py_error + build_state" where
  "build_loop inds mp st [] = Inr st"
| "build_loop inds mp st (item # rest) =
     (case build_row inds mp st item of
        Inl e \<Rightarrow> Inl e
      | Inr st' \<Rightarrow> build_loop inds mp st' rest)"

text \<open>
  \<open>build\<close> reads \<open>indicators["multiple-products"]\<close>, runs the loop and returns
  \<open>entries\<close>.
\<close>

definition build :: "row list \<Rightarrow> indicators \<Rightarrow> py_error + RatReviewEntry list" where
  "build data inds =
     (case inds ''multiple-products'' of
        None \<Rightarrow> Inl KeyError
      | Some multi_product_indicator \<Rightarrow>
         (case build_loop inds multi_product_indicator init_state data of
            Inl e \<Rightarrow> Inl e
          | Inr st \<Rightarrow> Inr (entries st)))"

section \<open>The legend (report/pdf_table.py, PdfTableDocument)\<close>

definition key_lines :: "(string \<times> string) list" where
  "key_lines =
     [(''yes'',
       ''Compliant with the WHO guidelines (LOD within range 100-1000 TCID50/mL) during TGA validation''),
      (''no'',
       ''Non-compliant with the WHO guidelines (LOD does not fall within the range 100-1000 TCID50/mL) during TGA validation''),
      (''multiple-products'',
       ''Where multiple RATs are included under the one (1) ARTG number and have the same product composition, they have''),
      (''tests-protein-studies'',
       ''In manufacturer provided evidence, variants that have only been tested with recombinant protein studies.'')]"

text \<open>
  \<open>_key_indicator\<close>: the first key whose sentence occurs in the line, with \<open>line[0]\<close>.
\<close>

fun key_indicator_loop ::
  "(string \<times> string) list \<Rightarrow> string \<Rightarrow> py_error + (string \<times> string) option" where
  "key_indicator_loop [] line = Inr None"
| "key_indicator_loop (kv # rest) line =
     (if str_in (snd kv) line then
        (case line of [] \<Rightarrow> Inl IndexError | c # _ \<Rightarrow> Inr (Some (fst kv, [c])))
      else key_indicator_loop rest line)"

definition key_indicator :: "string \<Rightarrow> py_error + (string \<times> string) option" where
  "key_indicator line = key_indicator_loop key_lines line"

text \<open>
  The legend statement of the loop of \<open>read\<close>
  (\<open>indicators_raw = self._key_indicator(line)\<close> and the assignment under it), and its
  repetition over the lines that reach it in document order.  Blank lines, date lines
  and page footers leave the loop body before this statement.
\<close>

definition read_indicator :: "indicators \<Rightarrow> string \<Rightarrow> py_error + indicators" where
  "read_indicator inds line =
     (case key_indicator line of
        Inl e \<Rightarrow> Inl e
      | Inr None \<Rightarrow> Inr inds
      | Inr (Some kc) \<Rightarrow> Inr (inds(fst kc \<mapsto> snd kc)))"

fun read_indicators :: "indicators \<Rightarrow> string list \<Rightarrow> py_error + indicators" where
  "read_indicators inds [] = Inr inds"
| "read_indicators inds (line # rest) =
     (case read_indicator inds line of
        Inl e \<Rightarrow> Inl e
      | Inr inds' \<Rightarrow> read_indicators inds' rest)"

section \<open>Header detection (report/pdf_table.py, PdfTableHeader)\<close>

datatype align = Left | Middle

record raw_column =
  col_name :: string
  col_columns :: "string list"
  col_align :: align

definition raw_columns :: "raw_column list" where
  "raw_columns =
     [\<lparr>col_name = ''artg'', col_columns = [''ARTG''], col_align = Left\<rparr>,
      \<lparr>col_name = ''sponsor'', col_columns = [''Sponsor''], col_align = Left\<rparr>,
      \<lparr>col_name = ''manufacturer'', col_columns = [''Manufacturer''], col_align = Left\<rparr>,
      \<lparr>col_name = ''name'', col_columns = [''Test Kit name''], col_align = Left\<rparr>,
      \<lparr>col_name = ''batch'', col_columns = [''TGA testing'', [], ''Batch number''],
       col_align = Middle\<rparr>,
      \<lparr>col_name = ''wild'',
       col_columns = [''TGA'', ''testing'', [], ''Wild type'', ''analytical'', ''sensitivity''],
       col_align = Middle\<rparr>,
      \<lparr>col_name = ''delta'',
       col_columns = [''TGA'', ''testing'', [], ''Delta'', ''analytical'', ''sensitivity''],
       col_align = Middle\<rparr>,
      \<lparr>col_name = ''omicron'',
       col_columns = [''TGA'', ''testing'', [], ''Omicron'', ''analytical'', ''sensitivity''],
       col_align = Middle\<rparr>,
      \<lparr>col_name = ''quality'',
       col_columns = [''TGA'', ''testing'', [], ''Device'', ''quality''],
       col_align = Middle\<rparr>,
      \<lparr>col_name = ''provided'', col_columns = [''Manufacturer'', ''provided evidence''],
       col_align = Left\<rparr>]"

definition col_sep :: string where
  "col_sep = ''  ''"

definition pdf_header_cols :: nat where
  "pdf_header_cols = length raw_columns"

definition pdf_header_rows :: nat where
  "pdf_header_rows = foldr max (map (\<lambda>h. length (col_columns h)) raw_columns) 0"

text \<open>\<open>_build\<close>: the template, one list of fragments for each header line.\<close>

definition pdf_header_lines :: "string list list" where
  "pdf_header_lines =
     map (\<lambda>col. map (\<lambda>row_data.
                  let row_val = col_columns row_data
                  in if length row_val > col then row_val ! col else [])
                raw_columns)
         [0 ..< pdf_header_rows]"

record hmatch =
  header :: string
  start_index :: nat
  end_index :: nat
  item :: nat

text \<open>The state of a header is \<open>_actual\<close>, a dictionary from template row to matches.\<close>

type_synonym actual = "(nat \<times> hmatch list) list"

definition is_complete :: "actual \<Rightarrow> bool" where
  "is_complete a = (length a = pdf_header_rows)"

text \<open>
  \<open>add_header_line\<close>.  The inner loop runs over the fragments of one template row and
  returns \<open>result\<close> and \<open>current_index\<close>; on a missing fragment it leaves with
  \<open>result = []\<close>.  The outer loop runs over the template rows; \<open>current_index\<close> and
  \<open>result\<close> are variables of the whole call.
\<close>

fun match_headers ::
  "string \<Rightarrow> nat \<Rightarrow> hmatch list \<Rightarrow> nat \<Rightarrow> string list \<Rightarrow> py_error + hmatch list \<times> nat" where
  "match_headers line current_index result header_index [] = Inr (result, current_index)"
| "match_headers line current_index result header_index (h # rest) =
     (if \<not> str_in h (drop current_index line) then Inr ([], current_index)
      else if h \<noteq> [] then
        (case str_index line h current_index of
           Inl e \<Rightarrow> Inl e
         | Inr start \<Rightarrow>
             match_headers line (start + length h)
               (result @ [\<lparr>header = h, start_index = start, end_index = start + length h,
                            item = header_index\<rparr>])
               (Suc header_index) rest)
      else match_headers line current_index result (Suc header_index) rest)"

fun match_lines ::
  "string \<Rightarrow> nat \<Rightarrow> hmatch list \<Rightarrow> nat \<Rightarrow> string list list \<Rightarrow>
   py_error + (nat \<times> hmatch list) option" where
  "match_lines line current_index result headers_index [] =
     (if result = [] then Inr None else Inl ValueError)"
| "match_lines line current_index result headers_index (headers # rest) =
     (case match_headers line current_index result 0 headers of
        Inl e \<Rightarrow> Inl e
      | Inr (result', current_index') \<Rightarrow>
          if result' \<noteq> [] then Inr (Some (headers_index, result'))
          else match_lines line current_index' result' (Suc headers_index) rest)"

definition add_header_line :: "actual \<Rightarrow> string \<Rightarrow> py_error + bool \<times> actual" where
  "add_header_line a line =
     (if is_complete a then Inr (False, a)
      else case match_lines line 0 [] 0 pdf_header_lines of
             Inl e \<Rightarrow> Inl e
           | Inr None \<Rightarrow> Inr (False, a)
           | Inr (Some m) \<Rightarrow> Inr (True, dict_set a (fst m) (snd m)))"

text \<open>Offering the lines of a page to the header in order, as \<open>read\<close> does.\<close>

fun add_header_lines :: "actual \<Rightarrow> string list \<Rightarrow> py_error + actual" where
  "add_header_lines a [] = Inr a"
| "add_header_lines a (line # rest) =
     (case add_header_line a line of
        Inl e \<Rightarrow> Inl e
      | Inr ba \<Rightarrow> add_header_lines (snd ba) rest)"

text \<open>
  \<open>header_indexes\<close>.  The first loop folds every match into \<open>initial\<close>, the smallest
  start and the largest end for each column.
\<close>

record span =
  span_name :: string
  span_start :: int
  span_end :: int

type_synonym initial = "(nat \<times> span) list"

definition merge_match :: "initial \<Rightarrow> hmatch \<Rightarrow> py_error + initial" where
  "merge_match ini h =
     (if length raw_columns \<le> item h then Inl IndexError
      else
        let v = \<lparr>span_name = col_name (raw_columns ! item h),
                 span_start = int (start_index h), span_end = int (end_index h)\<rparr>
        in case map_of ini (item h) of
             None \<Rightarrow> Inr (dict_set ini (item h) v)
           | Some cur \<Rightarrow>
               let cur1 = (if span_start v \<le> span_start cur
                           then cur\<lparr>span_start := span_start v\<rparr> else cur);
                   cur2 = (if span_end v \<ge> span_end cur1
                           then cur1\<lparr>span_end := span_end v\<rparr> else cur1)
               in Inr (dict_set ini (item h) cur2))"

fun merge_matches :: "initial \<Rightarrow> hmatch list \<Rightarrow> py_error + initial" where
  "merge_matches ini [] = Inr ini"
| "merge_matches ini (h # rest) =
     (case merge_match ini h of Inl e \<Rightarrow> Inl e | Inr ini' \<Rightarrow> merge_matches ini' rest)"

fun build_initial :: "initial \<Rightarrow> actual \<Rightarrow> py_error + initial" where
  "build_initial ini [] = Inr ini"
| "build_initial ini (lh # rest) =
     (case merge_matches ini (snd lh) of
        Inl e \<Rightarrow> Inl e
      | Inr ini' \<Rightarrow> build_initial ini' rest)"

text \<open>
  The body of the second loop, for the column \<open>index\<close> with its span \<open>h\<close>.  The
  neighbours at distance one and two are looked up in \<open>initial\<close>; the formatted
  \<open>info\<close> text of the result is left out.
\<close>

record header_index =
  hi_name :: string
  hi_start :: int
  hi_end :: int
  hi_align :: align

definition header_range :: "initial \<Rightarrow> nat \<Rightarrow> span \<Rightarrow> py_error + header_index" where
  "header_range ini index h =
     (let header_count = length raw_columns;
          col_sep_len = int (length col_sep)
      in if header_count \<le> index then Inl IndexError
         else case (if index + 1 < header_count then
                      (case map_of ini (index + 1) of
                         None \<Rightarrow> Inl KeyError
                       | Some next_item \<Rightarrow>
                           Inr (span_start next_item,
                                Some (col_align (raw_columns ! (index + 1))), span_end h))
                    else Inr (- 1, None, - 1)) of
                Inl e \<Rightarrow> Inl e
              | Inr (next_start, next_align, end1) \<Rightarrow>
                 (case (if index > 0 then
                          (case map_of ini (index - 1) of
                             None \<Rightarrow> Inl KeyError
                           | Some prev_item \<Rightarrow> Inr (span_start h))
                        else Inr 0) of
                    Inl e \<Rightarrow> Inl e
                  | Inr start1 \<Rightarrow>
                      if index + 2 < header_count \<and> map_of ini (index + 2) = None
                      then Inl KeyError
                      else if index > 1 \<and> map_of ini (index - 2) = None
                      then Inl KeyError
                      else
                        let end2 = (if next_align = Some Left then next_start - col_sep_len
                                    else end1)
                        in if start1 < 0 \<or> (start1 \<ge> end2 \<and> end2 \<ge> 0) then Inl ValueError
                           else Inr \<lparr>hi_name = span_name h, hi_start = start1, hi_end = end2,
                                     hi_align = col_align (raw_columns ! index)\<rparr>))"

fun header_ranges ::
  "initial \<Rightarrow> (nat \<times> header_index) list \<Rightarrow> initial \<Rightarrow> py_error + (nat \<times> header_index) list" where
  "header_ranges ini result [] = Inr result"
| "header_ranges ini result (ih # rest) =
     (case header_range ini (fst ih) (snd ih) of
        Inl e \<Rightarrow> Inl e
      | Inr r \<Rightarrow> header_ranges ini (dict_set result (fst ih) r) rest)"

definition header_indexes :: "actual \<Rightarrow> py_error + (nat \<times> header_index) list" where
  "header_indexes a =
     (case build_initial [] a of
        Inl e \<Rightarrow> Inl e
      | Inr ini \<Rightarrow> header_ranges ini [] ini)"

text \<open>
  What \<open>read\<close> does with the header of a page: the lines are offered in order to a
  fresh header, and once the header is complete \<open>get_row\<close> takes \<open>header_indexes\<close>.
\<close>

definition detect_header :: "string list \<Rightarrow> py_error + (nat \<times> header_index) list option" where
  "detect_header lines =
     (case add_header_lines [] lines of
        Inl e \<Rightarrow> Inl e
      | Inr a \<Rightarrow>
          if is_complete a then
            (case header_indexes a of Inl e \<Rightarrow> Inl e | Inr r \<Rightarrow> Inr (Some r))
          else Inr None)"

text \<open>
  The two properties that the specification states of the ranges, as tests on the ranges
  of neighbouring columns: each range ends where the next one starts, and no range
  reaches into the next one.
\<close>

fun consecutive_all ::
  "(header_index \<Rightarrow> header_index \<Rightarrow> bool) \<Rightarrow> (nat \<times> header_index) list \<Rightarrow> bool" where
  "consecutive_all P (a # b # rest) = (P (snd a) (snd b) \<and> consecutive_all P (b # rest))"
| "consecutive_all P [a] = True"
| "consecutive_all P [] = True"

definition ranges_contiguous :: "(nat \<times> header_index) list \<Rightarrow> bool" where
  "ranges_contiguous res = consecutive_all (\<lambda>a b. hi_end a = hi_start b) res"

definition ranges_non_overlapping :: "(nat \<times> header_index) list \<Rightarrow> bool" where
  "ranges_non_overlapping res = consecutive_all (\<lambda>a b. hi_end a \<le> hi_start b) res"

section \<open>Evaluating the batches of an entry (report/tga_rats.py, Report)\<close>

text \<open>
  \<open>sorted(batches, key=lambda x: x.batch)\<close>: a stable sort on the batch strings.
  Comparing with \<open>None\<close> raises, which happens as soon as there are two batches and one
  of them has no batch string.
\<close>

definition batch_key :: "RatReviewBatch \<Rightarrow> string" where
  "batch_key b = (case batch b of None \<Rightarrow> [] | Some s \<Rightarrow> s)"

definition sorted_batches :: "RatReviewBatch list \<Rightarrow> py_error + RatReviewBatch list" where
  "sorted_batches bs =
     (if length bs > 1 \<and> list_ex (\<lambda>b. batch b = None) bs then Inl TypeError
      else Inr (sort_key batch_key bs))"

fun eval_sensitivities ::
  "pydict \<Rightarrow> RatReviewAnalyticalSensitivity list \<Rightarrow> py_error + pydict" where
  "eval_sensitivities result [] = Inr result"
| "eval_sensitivities result (i # rest) =
     (if compliant i then eval_sensitivities (dict_set result (sens_name i) ''yes'') rest
      else if sens_comment i \<noteq> None \<and> sens_comment i \<noteq> Some [] then
        eval_sensitivities (dict_set result (sens_name i) ''no'') rest
      else if \<not> compliant i then
        eval_sensitivities (dict_set result (sens_name i) ''no'') rest
      else Inl ValueError)"

text \<open>\<open>_eval_review_batches\<close>\<close>

definition eval_review_batches :: "RatReviewBatch list \<Rightarrow> py_error + pydict" where
  "eval_review_batches bs =
     (if bs = [] then Inr []
      else case sorted_batches bs of
             Inl e \<Rightarrow> Inl e
           | Inr batches_sorted \<Rightarrow>
               let b = last batches_sorted;
                   previous_all_bad = list_all (\<lambda>x. \<not> all_compliant x) (butlast bs);
                   previous_all_good = list_all all_compliant (butlast bs)
               in if length bs > 1 \<and> \<not> previous_all_bad \<and> \<not> previous_all_good
                  then Inl ValueError
                  else eval_sensitivities [] (analytical_sensitivities b))"


section \<open>Example inputs\<close>

text \<open>A legend with the three keys that \<open>build\<close> and \<open>_build_entry\<close> look up.\<close>

definition example_legend :: indicators where
  "example_legend = [''yes'' \<mapsto> ''Y'', ''no'' \<mapsto> ''N'', ''multiple-products'' \<mapsto> ''*'']"

text \<open>A row that carries an identifier, a batch with its results, and an evidence cell.\<close>

definition example_row :: row where
  "example_row =
     \<lparr>row_artg = ''12345'', row_sponsor = ''Acme'', row_manufacturer = ''Maker'',
      row_name = ''Kit'', row_batch = ''B1'', row_wild = ''Y'', row_delta = ''Y'',
      row_omicron = ''N'', row_quality = ''Y'', row_provided = ''Variant: A''\<rparr>"

text \<open>
  The three legend lines with the leading characters \<open>Y\<close>, \<open>N\<close> and \<open>*\<close>, and a
  batch slot whose wild-type cell holds the compliant sentence itself.
\<close>

definition example_legend_lines :: "string list" where
  "example_legend_lines =
     [''Y Compliant with the WHO guidelines (LOD within range 100-1000 TCID50/mL) during TGA validation'',
      ''N Non-compliant with the WHO guidelines (LOD does not fall within the range 100-1000 TCID50/mL) during TGA validation'',
      ''* Where multiple RATs are included under the one (1) ARTG number and have the same product composition, they have'']"

definition example_slot :: pydict where
  "example_slot =
     [(''batch'', ''B1''),
      (''wild'',
       ''Compliant with the WHO guidelines (LOD within range 100-1000 TCID50/mL) during TGA validation''),
      (''delta'', ''Y''), (''omicron'', ''N''), (''quality'', ''not tested'')]"

text \<open>A row whose identifier cell holds a comment instead of digits.\<close>

definition withdrawn_row :: row where
  "withdrawn_row = example_row\<lparr>row_artg := ''ARTG12345(withdrawn)''\<rparr>"

text \<open>A batch with one result, compliant or not.\<close>

definition example_batch :: "string \<Rightarrow> bool \<Rightarrow> RatReviewBatch" where
  "example_batch b c =
     \<lparr>batch = Some b,
      analytical_sensitivities = [\<lparr>sens_name = ''wild'', compliant = c, sens_comment = None\<rparr>]\<rparr>"

text \<open>
  The six header lines of a page.  The label \<open>Batch number\<close> of the third line reaches
  under the label of the wild-type column, and the batch column starts eight characters
  after the end of \<open>Test Kit name\<close>.
\<close>

definition example_header_lines :: "string list" where
  "example_header_lines =
     [''ARTG  Sponsor  Manufacturer  Test Kit name        TGA testing  TGA         TGA         TGA         TGA      Manufacturer'',
      ''                                                               testing     testing     testing     testing  provided evidence'',
      ''                                                     Batch number'',
      ''                                                               Wild type   Delta       Omicron     Device'',
      ''                                                               analytical  analytical  analytical  quality'',
      ''                                                               sensitivity sensitivity sensitivity'']"

definition example_ranges :: "(nat \<times> header_index) list" where
  "example_ranges =
     [(0, \<lparr>hi_name = ''artg'', hi_start = 0, hi_end = 4, hi_align = Left\<rparr>),
      (1, \<lparr>hi_name = ''sponsor'', hi_start = 6, hi_end = 13, hi_align = Left\<rparr>),
      (2, \<lparr>hi_name = ''manufacturer'', hi_start = 15, hi_end = 27, hi_align = Left\<rparr>),
      (3, \<lparr>hi_name = ''name'', hi_start = 29, hi_end = 42, hi_align = Left\<rparr>),
      (4, \<lparr>hi_name = ''batch'', hi_start = 50, hi_end = 65, hi_align = Middle\<rparr>),
      (5, \<lparr>hi_name = ''wild'', hi_start = 63, hi_end = 74, hi_align = Middle\<rparr>),
      (6, \<lparr>hi_name = ''delta'', hi_start = 75, hi_end = 86, hi_align = Middle\<rparr>),
      (7, \<lparr>hi_name = ''omicron'', hi_start = 87, hi_end = 98, hi_align = Middle\<rparr>),
      (8, \<lparr>hi_name = ''quality'', hi_start = 99, hi_end = 106, hi_align = Middle\<rparr>),
      (9, \<lparr>hi_name = ''provided'', hi_start = 108, hi_end = - 1, hi_align = Left\<rparr>)]"

text \<open>
  The same entry spread over three rows: the identifier with the sponsor, manufacturer
  and product name, then the batch with its results, then the evidence.
\<close>

definition empty_row :: row where
  "empty_row =
     \<lparr>row_artg = [], row_sponsor = [], row_manufacturer = [], row_name = [],
      row_batch = [], row_wild = [], row_delta = [], row_omicron = [], row_quality = [],
      row_provided = []\<rparr>"

definition identifier_row :: row where
  "identifier_row =
     empty_row\<lparr>row_artg := ''12345'', row_sponsor := ''Acme'', row_manufacturer := ''Maker'',
               row_name := ''Kit''\<rparr>"

definition batch_row :: row where
  "batch_row =
     empty_row\<lparr>row_batch := ''B1'', row_wild := ''Y'', row_delta := ''Y'', row_omicron := ''N'',
               row_quality := ''Y''\<rparr>"

definition evidence_row :: row where
  "evidence_row = empty_row\<lparr>row_provided := ''Variant: A''\<rparr>"



text \<open>
  Lines of a page in document order: a legend line led by \<open>Y\<close>, a data line, a second
  line with the same legend sentence led by \<open>X\<close>, and another data line.
\<close>

definition example_page_lines :: "string list" where
  "example_page_lines =
     [''Y Compliant with the WHO guidelines (LOD within range 100-1000 TCID50/mL) during TGA validation'',
      ''12345  Acme  Maker  Kit'',
      ''X Compliant with the WHO guidelines (LOD within range 100-1000 TCID50/mL) during TGA validation'',
      ''       continued text'']"

section \<open>Facts about the string and dictionary operations\<close>

lemma map_of_dict_set:
  "map_of (dict_set d k v) k' = (if k' = k then Some v else map_of d k')"
  by (induction d) auto

lemma norm_name_cases:
  "snd (norm_name v mp) = NoneV \<or> (\<exists>s. snd (norm_name v mp) = StrV s)"
  by (simp add: norm_name_def Let_def)

lemma list_add_names_ok:
  "container \<noteq> [] \<Longrightarrow> \<exists>ns. list_add container (snd (norm_name v mp)) = Inr ns"
  using norm_name_cases [of v mp] by (auto simp: list_add_def)

section \<open>The first row of a stream\<close>

lemma split_artg_ok:
  "a \<noteq> BoolV True \<Longrightarrow> \<exists>a' ac. split_artg a = Inr (a', ac)"
  by (cases a) (auto simp: split_artg_def)

lemma close_entry_init: "close_entry inds a init_state = Inr init_state"
  by (simp add: close_entry_def init_state_def)

lemma open_slots_init:
  "\<not> truthy b \<Longrightarrow>
   open_slots a nw nm b provided init_state =
     Inr (init_state\<lparr>current_names := [[]], current_evidence := [[]]\<rparr>)"
  by (simp add: open_slots_def init_state_def Let_def)

lemma init_batches: "current_batches init_state = []"
  by (simp add: init_state_def)

lemma add_fields_no_batch:
  "current_batches st = [] \<Longrightarrow> current_names st \<noteq> [] \<Longrightarrow>
   add_fields a sp mf ac (snd (norm_name v mp)) b w d om q p st = Inl IndexError"
  using list_add_names_ok [of "current_names st" v mp]
  by (auto simp: add_fields_def Let_def)

lemma build_row_first:
  assumes "\<not> truthy (norm (row_batch r))"
  shows "build_row inds mp init_state r =
           Inl (if norm (row_artg r) = BoolV True then TypeError else IndexError)"
proof (cases "norm (row_artg r) = BoolV True")
  case True
  then show ?thesis by (simp add: build_row_def Let_def split_artg_def)
next
  case False
  then obtain a ac where sa: "split_artg (norm (row_artg r)) = Inr (a, ac)"
    using split_artg_ok by blast
  show ?thesis
    using False assms
    by (simp add: build_row_def Let_def sa close_entry_init open_slots_init
        add_fields_no_batch init_batches)
qed

text \<open>
  C9.  The batch fields of a row go to the last batch slot, and a slot is opened only
  by a row whose batch cell is true after normalisation.  When the batch cell of the
  first row of a stream is empty (or the token \<open>no\<close>), \<open>build\<close> fails: with the
  missing-key error when the legend has no \<open>multiple-products\<close> key, with a type error
  when the identifier cell is the token \<open>yes\<close>, and otherwise with the index error of
  \<open>current_batches[-1]\<close>.  So a \<open>build\<close> that returns on a non-empty stream had a
  first row with a non-empty batch cell.
\<close>

theorem build_first_batch_empty:
  "(\<not> truthy (norm (row_batch r)) \<longrightarrow>
      build (r # rs) inds =
        Inl (if inds ''multiple-products'' = None then KeyError
             else if norm (row_artg r) = BoolV True then TypeError
             else IndexError)) \<and>
   (\<forall>es. build (r # rs) inds = Inr es \<longrightarrow> truthy (norm (row_batch r)))"
proof -
  have a: "build (r # rs) inds =
        Inl (if inds ''multiple-products'' = None then KeyError
             else if norm (row_artg r) = BoolV True then TypeError
             else IndexError)" if "\<not> truthy (norm (row_batch r))"
    using build_row_first [OF that] by (auto simp: build_def split: option.splits)
  show ?thesis
  proof (intro conjI impI allI)
    assume "\<not> truthy (norm (row_batch r))"
    then show "build (r # rs) inds =
        Inl (if inds ''multiple-products'' = None then KeyError
             else if norm (row_artg r) = BoolV True then TypeError
             else IndexError)" by (rule a)
  next
    fix es
    assume ok: "build (r # rs) inds = Inr es"
    show "truthy (norm (row_batch r))"
    proof (rule ccontr)
      assume "\<not> truthy (norm (row_batch r))"
      from a [OF this] ok show False by simp
    qed
  qed
qed

theorem build_first_batch_empty_witness:
  "\<not> truthy (norm (row_batch (example_row\<lparr>row_batch := []\<rparr>))) \<and>
   build [example_row\<lparr>row_batch := []\<rparr>] example_legend = Inl IndexError"
  using build_first_batch_empty [of "example_row\<lparr>row_batch := []\<rparr>" "[]" example_legend]
  by (simp add: example_row_def example_legend_def norm_def strip_def isspace_def)

section \<open>The end of the stream\<close>

text \<open>
  C1.  The loop of \<open>build\<close> stores an entry only when a later row brings a new
  identifier, and \<open>build\<close> returns \<open>entries\<close> right after the loop.  On a stream of
  one row that carries an identifier, a batch and an evidence cell the entry in progress
  is never stored: the returned list is empty.  The same entry spread over an identifier
  row, a batch row and an evidence row returns nothing either: the identifier row has no
  batch cell, and \<open>build\<close> fails on it with the index error.
\<close>

theorem build_single_entry_dropped:
  "build [example_row] example_legend = Inr [] \<and>
   build [identifier_row, batch_row, evidence_row] example_legend = Inl IndexError"
  by (simp add: build_def example_legend_def example_row_def identifier_row_def batch_row_def
      evidence_row_def empty_row_def build_row_def norm_def norm_name_def
      strip_def isspace_def split_artg_def isdigit_def close_entry_def open_slots_def
      add_fields_def list_add_def startswith_def init_state_def colon_in_def Let_def)

section \<open>The legend keys that \<open>build\<close> needs\<close>

lemma build_entry_no_key:
  "inds ''yes'' = None \<or> inds ''no'' = None \<Longrightarrow>
   build_entry entry names slots evidence inds =
     (case build_evidence [] None evidence of Inl e \<Rightarrow> Inl e | Inr evs \<Rightarrow> Inl KeyError)"
  by (auto simp: build_entry_def split: sum.splits option.splits)

lemma close_entry_no_key:
  "inds ''yes'' = None \<or> inds ''no'' = None \<Longrightarrow> close_entry inds a st = Inr st1 \<Longrightarrow> st1 = st"
  by (auto simp: close_entry_def build_entry_no_key split: if_splits sum.splits)

lemma open_slots_entries:
  "open_slots a nw nm b p st = Inr st1 \<Longrightarrow> entries st1 = entries st"
  by (auto simp: open_slots_def Let_def split: if_splits sum.splits)

lemma add_fields_entries:
  "add_fields a sp mf ac nm b w d om q p st = Inr st1 \<Longrightarrow> entries st1 = entries st"
  by (auto simp: add_fields_def Let_def split: if_splits sum.splits)

lemma build_row_no_key:
  assumes "inds ''yes'' = None \<or> inds ''no'' = None"
    and "build_row inds mp st r = Inr st1"
  shows "entries st1 = entries st"
  using assms(2)
  by (auto simp: build_row_def Let_def split: sum.splits prod.splits
      dest!: close_entry_no_key [OF assms(1)] open_slots_entries add_fields_entries)

lemma build_loop_no_key:
  assumes "inds ''yes'' = None \<or> inds ''no'' = None"
  shows "build_loop inds mp st rs = Inr st1 \<Longrightarrow> entries st1 = entries st"
proof (induction rs arbitrary: st)
  case Nil
  then show ?case by simp
next
  case (Cons r rs)
  then show ?case
    by (auto split: sum.splits dest: build_row_no_key [OF assms])
qed

text \<open>
  C10.  \<open>build\<close> reads \<open>indicators["multiple-products"]\<close> before the loop, so
  without that key it fails with the missing-key error on every row stream, the empty
  one included.  \<open>_build_entry\<close> reads \<open>indicators["yes"]\<close> and
  \<open>indicators["no"]\<close> after the evidence loop: without one of them it never returns
  an entry, and fails with the missing-key error unless the evidence loop has raised
  before.  Hence a \<open>build\<close> that returns had the \<open>multiple-products\<close> key, and
  one that returns a non-empty list had the \<open>yes\<close> and \<open>no\<close> keys too.
\<close>

theorem build_requires_legend_keys:
  "(inds ''multiple-products'' = None \<longrightarrow> build data inds = Inl KeyError) \<and>
   (inds ''yes'' = None \<or> inds ''no'' = None \<longrightarrow>
      build_entry entry names slots evidence inds =
        (case build_evidence [] None evidence of Inl e \<Rightarrow> Inl e | Inr evs \<Rightarrow> Inl KeyError)) \<and>
   (\<forall>es. build data inds = Inr es \<longrightarrow>
      inds ''multiple-products'' \<noteq> None \<and>
      (es \<noteq> [] \<longrightarrow> inds ''yes'' \<noteq> None \<and> inds ''no'' \<noteq> None))"
proof (intro conjI impI allI)
  assume "inds ''multiple-products'' = None"
  then show "build data inds = Inl KeyError" by (simp add: build_def)
next
  assume "inds ''yes'' = None \<or> inds ''no'' = None"
  then show "build_entry entry names slots evidence inds =
        (case build_evidence [] None evidence of Inl e \<Rightarrow> Inl e | Inr evs \<Rightarrow> Inl KeyError)"
    by (rule build_entry_no_key)
next
  fix es assume "build data inds = Inr es"
  then show "inds ''multiple-products'' \<noteq> None"
    by (auto simp: build_def split: option.splits)
next
  fix es assume ok: "build data inds = Inr es" and ne: "es \<noteq> []"
  have "\<not> (inds ''yes'' = None \<or> inds ''no'' = None)"
  proof
    assume k: "inds ''yes'' = None \<or> inds ''no'' = None"
    from ok obtain mp st where "build_loop inds mp init_state data = Inr st" "es = entries st"
      by (auto simp: build_def split: option.splits sum.splits)
    with build_loop_no_key [OF k] have "es = []" by (simp add: init_state_def)
    with ne show False by simp
  qed
  then show "inds ''yes'' \<noteq> None" "inds ''no'' \<noteq> None" by auto
qed

theorem build_requires_legend_keys_witness:
  "build [example_row] Map.empty = Inl KeyError \<and>
   build_entry [] [] [] [] Map.empty = Inl KeyError \<and>
   (\<exists>es. build [example_row, example_row] example_legend = Inr es \<and> es \<noteq> []) \<and>
   example_legend ''multiple-products'' \<noteq> None \<and>
   example_legend ''yes'' \<noteq> None \<and> example_legend ''no'' \<noteq> None"
proof -
  have two: "\<exists>es. build [example_row, example_row] example_legend = Inr es \<and> es \<noteq> []"
    by (simp add: build_def example_legend_def example_row_def build_row_def norm_def norm_name_def
      strip_def isspace_def split_artg_def isdigit_def close_entry_def open_slots_def
      add_fields_def list_add_def startswith_def init_state_def colon_in_def Let_def
      build_entry_def count_chr_def evidence_of_def add_entry_fields_def dict_add_def)
  from two obtain es where es: "build [example_row, example_row] example_legend = Inr es" "es \<noteq> []"
    by blast
  show ?thesis
    using build_requires_legend_keys [of Map.empty "[example_row]" "[]" "[]" "[]" "[]"]
      build_requires_legend_keys [of example_legend "[example_row, example_row]" "[]" "[]" "[]" "[]"]
      es
    by simp
qed

section \<open>From batch slots to analytical sensitivities\<close>

text \<open>
  C3, as stated, fails.  The legend records the leading character of a legend line, not
  its sentence: with the legend lines led by \<open>Y\<close>, \<open>N\<close> and \<open>*\<close>, a wild-type
  cell that holds the compliant sentence itself is not compliant and keeps the sentence
  as its comment.
\<close>

theorem sentence_cell_is_a_comment:
  "read_indicators Map.empty example_legend_lines = Inr example_legend \<and>
   build_entry [] [] [example_slot] [] example_legend =
     Inr \<lparr>artg = None, comment = None, sponsor = None, manufacturer = None,
          product_names = [],
          batches =
            [\<lparr>batch = Some ''B1'',
              analytical_sensitivities =
                [\<lparr>sens_name = ''wild'', compliant = False,
                  sens_comment = Some ''Compliant with the WHO guidelines (LOD within range 100-1000 TCID50/mL) during TGA validation''\<rparr>,
                 \<lparr>sens_name = ''delta'', compliant = True, sens_comment = None\<rparr>,
                 \<lparr>sens_name = ''omicron'', compliant = False, sens_comment = None\<rparr>,
                 \<lparr>sens_name = ''quality'', compliant = False,
                  sens_comment = Some ''not tested''\<rparr>]\<rparr>],
          manufacturer_evidence = []\<rparr>"
  by (simp add: example_legend_lines_def example_legend_def read_indicator_def key_indicator_def
      key_lines_def startswith_def build_entry_def example_slot_def build_batch_def build_test_def)

text \<open>
  C3, amended.  Every field of a batch slot other than \<open>batch\<close> becomes one
  analytical sensitivity by comparing its text with the two recorded legend characters:
  a text equal to the character recorded for \<open>yes\<close> is compliant with no comment, a
  text equal to the character recorded for \<open>no\<close> (and not to the one for \<open>yes\<close>) is
  not compliant with no comment, and any other text is not compliant and is the comment.
\<close>

theorem build_entry_sensitivities:
  assumes "build_entry entry names slots evidence inds = Inr e"
  shows "\<exists>y n. inds ''yes'' = Some y \<and> inds ''no'' = Some n \<and>
     batches e =
       map (\<lambda>item.
             \<lparr>batch = map_of item ''batch'',
              analytical_sensitivities =
                map (\<lambda>kv. \<lparr>sens_name = fst kv, compliant = (snd kv = y),
                           sens_comment = (if snd kv = y \<or> snd kv = n then None
                                           else Some (snd kv))\<rparr>)
                  (filter (\<lambda>kv. fst kv \<noteq> ''batch'') item)\<rparr>)
           slots"
proof -
  from assms obtain y n evs where
    y: "inds ''yes'' = Some y" and n: "inds ''no'' = Some n" and
    e: "batches e = map (build_batch y n) slots"
    by (auto simp: build_entry_def split: sum.splits option.splits)
  have "build_test y n kv =
          \<lparr>sens_name = fst kv, compliant = (snd kv = y),
           sens_comment = (if snd kv = y \<or> snd kv = n then None else Some (snd kv))\<rparr>" for kv
    by (simp add: build_test_def Let_def)
  then have "build_batch y n = (\<lambda>item.
             \<lparr>batch = map_of item ''batch'',
              analytical_sensitivities =
                map (\<lambda>kv. \<lparr>sens_name = fst kv, compliant = (snd kv = y),
                           sens_comment = (if snd kv = y \<or> snd kv = n then None
                                           else Some (snd kv))\<rparr>)
                  (filter (\<lambda>kv. fst kv \<noteq> ''batch'') item)\<rparr>)"
    by (simp add: build_batch_def fun_eq_iff)
  with y n e show ?thesis by simp
qed

theorem build_entry_sensitivities_witness:
  "\<exists>e. build_entry [] [] [example_slot] [] example_legend = Inr e \<and>
     example_legend ''yes'' = Some ''Y'' \<and> example_legend ''no'' = Some ''N'' \<and>
     batches e =
       [\<lparr>batch = Some ''B1'',
              analytical_sensitivities =
                [\<lparr>sens_name = ''wild'', compliant = False,
                  sens_comment = Some ''Compliant with the WHO guidelines (LOD within range 100-1000 TCID50/mL) during TGA validation''\<rparr>,
                 \<lparr>sens_name = ''delta'', compliant = True, sens_comment = None\<rparr>,
                 \<lparr>sens_name = ''omicron'', compliant = False, sens_comment = None\<rparr>,
                 \<lparr>sens_name = ''quality'', compliant = False,
                  sens_comment = Some ''not tested''\<rparr>]\<rparr>]"
proof -
  obtain e where e: "build_entry [] [] [example_slot] [] example_legend = Inr e"
    by (simp add: build_entry_def example_legend_def)
  from build_entry_sensitivities [OF e] show ?thesis
    using e by (simp add: example_legend_def example_slot_def)
qed

section \<open>A row whose identifier cell is not a number\<close>

lemma strip_Cons_space: "isspace c \<Longrightarrow> strip (c # s) = strip s"
  by (simp add: strip_def)

lemma dropWhile_rev_prefix:
  "\<exists>t. zs = rev (dropWhile P (rev zs)) @ t"
proof -
  have "rev zs = takeWhile P (rev zs) @ dropWhile P (rev zs)" by simp
  then have "rev (rev zs) = rev (takeWhile P (rev zs) @ dropWhile P (rev zs))" by simp
  then have "zs = rev (dropWhile P (rev zs)) @ rev (takeWhile P (rev zs))"
    by (simp only: rev_rev_ident rev_append)
  then show ?thesis by blast
qed

lemma strip_idem: "strip (strip s) = strip s"
proof -
  define zs where "zs = dropWhile isspace s"
  define w where "w = rev (dropWhile isspace (rev zs))"
  have w: "strip s = w" by (simp add: strip_def zs_def w_def)
  have dw: "dropWhile isspace w = w"
  proof (cases w)
    case Nil
    then show ?thesis by simp
  next
    case (Cons a w')
    obtain t where t: "zs = w @ t" using dropWhile_rev_prefix [of zs isspace] by (auto simp: w_def)
    with Cons have "zs \<noteq> []" "hd zs = a" by auto
    then have "\<not> isspace a" using hd_dropWhile [of isspace s] by (simp add: zs_def)
    with Cons show ?thesis by simp
  qed
  have "strip w = rev (dropWhile isspace (rev w))" by (simp add: strip_def dw)
  also have "rev w = dropWhile isspace (rev zs)" by (simp add: w_def)
  also have "rev (dropWhile isspace (dropWhile isspace (rev zs))) = w" by (simp add: w_def)
  finally show ?thesis using w by simp
qed

lemma norm_StrV: "norm v = StrV s \<Longrightarrow> s \<noteq> [] \<and> strip s = s"
  by (auto simp: norm_def Let_def strip_idem split: if_splits)

lemma isspace_space: "isspace CHR '' ''"
  by (simp add: isspace_def)

lemma map_of_dict_add:
  "map_of (dict_add d k v) k' =
     (if k' = k then Some (strip ((case map_of d k of None \<Rightarrow> [] | Some s \<Rightarrow> s) @
                                    (if v \<noteq> NoneV then '' '' @ str_of v else [])))
      else map_of d k')"
  by (simp add: dict_add_def Let_def map_of_dict_set)


lemma split_artg_non_digit:
  "s \<noteq> [] \<Longrightarrow> \<not> list_all isdigit s \<Longrightarrow> split_artg (StrV s) = Inr (NoneV, StrV s)"
  by (simp add: split_artg_def)

lemma close_entry_absent: "close_entry inds NoneV st = Inr st"
  by (simp add: close_entry_def)

lemma open_slots_absent:
  "open_slots NoneV nw nm b p st = Inr st1 \<Longrightarrow>
   current_entry st1 = current_entry st \<and> entries st1 = entries st"
  by (auto simp: open_slots_def Let_def split: if_splits sum.splits)

lemma add_fields_entry:
  "add_fields a sp mf ac nm b w d om q p st = Inr st1 \<Longrightarrow>
   current_entry st1 = add_entry_fields (current_entry st) a sp mf ac \<and> entries st1 = entries st"
  by (auto simp: add_fields_def Let_def split: if_splits sum.splits)

lemma add_entry_fields_artg:
  "map_of (add_entry_fields e NoneV sp mf (StrV s)) ''artg'' =
     Some (strip (case map_of e ''artg'' of None \<Rightarrow> [] | Some t \<Rightarrow> t))"
  by (simp add: add_entry_fields_def map_of_dict_add)

lemma add_entry_fields_comment:
  "map_of (add_entry_fields e NoneV sp mf (StrV s)) ''artg_comment'' =
     Some (strip ((case map_of e ''artg_comment'' of None \<Rightarrow> [] | Some t \<Rightarrow> t) @ '' '' @ s))"
  by (simp add: add_entry_fields_def map_of_dict_add)

text \<open>
  C8, as stated, fails on \<open>artg=null\<close>.  The row with the identifier cell
  \<open>ARTG12345(withdrawn)\<close>, closed by a following row with a numeric identifier, gives
  an entry whose comment is the cell's text and whose \<open>artg\<close> is the empty string:
  \<open>_dict_add\<close> creates the key with \<open>""\<close> before it skips the absent value.
\<close>

theorem withdrawn_identifier_is_empty_text:
  "build [withdrawn_row, example_row] example_legend =
     Inr [\<lparr>artg = Some [], comment = Some ''ARTG12345(withdrawn)'',
           sponsor = Some ''Acme'', manufacturer = Some ''Maker'',
           product_names = [''Kit''],
           batches =
             [\<lparr>batch = Some ''B1'',
               analytical_sensitivities =
                 [\<lparr>sens_name = ''wild'', compliant = True, sens_comment = None\<rparr>,
                  \<lparr>sens_name = ''delta'', compliant = True, sens_comment = None\<rparr>,
                  \<lparr>sens_name = ''omicron'', compliant = False, sens_comment = None\<rparr>,
                  \<lparr>sens_name = ''quality'', compliant = True, sens_comment = None\<rparr>]\<rparr>],
           manufacturer_evidence = [\<lparr>ev_group = Some ''Variant'', ev_name = '' A''\<rparr>]\<rparr>]"
  by (simp add: build_def example_legend_def example_row_def withdrawn_row_def build_row_def
      norm_def norm_name_def strip_def isspace_def split_artg_def isdigit_def close_entry_def
      open_slots_def add_fields_def list_add_def startswith_def init_state_def colon_in_def
      Let_def build_entry_def count_chr_def evidence_of_def add_entry_fields_def
      add_batch_fields_def dict_add_def build_batch_def build_test_def)

text \<open>
  C8, amended.  When the identifier cell of a row normalises to a string with a
  character that is not a digit, the identifier is absent for that row: the row stores
  no entry, it leaves the \<open>artg\<close> text of the entry in progress as it was (stripped, and
  the empty string when there was none), and it appends the cell's text to the entry's
  \<open>artg_comment\<close> text.  On a fresh entry the two texts are \<open>""\<close> and the cell's text,
  and they are what \<open>_build_entry\<close> returns as \<open>artg\<close> and \<open>comment\<close>.
\<close>

theorem non_digit_identifier_row:
  assumes "norm (row_artg r) = StrV s" and "\<not> list_all isdigit s"
    and "build_row inds mp st r = Inr st'"
  shows "entries st' = entries st \<and>
     map_of (current_entry st') ''artg'' =
       Some (strip (case map_of (current_entry st) ''artg'' of None \<Rightarrow> [] | Some t \<Rightarrow> t)) \<and>
     map_of (current_entry st') ''artg_comment'' =
       Some (strip ((case map_of (current_entry st) ''artg_comment'' of None \<Rightarrow> [] | Some t \<Rightarrow> t)
                    @ '' '' @ s)) \<and>
     (current_entry st = [] \<longrightarrow>
        map_of (current_entry st') ''artg'' = Some [] \<and>
        map_of (current_entry st') ''artg_comment'' = Some s) \<and>
     (\<forall>ns bs ev e. build_entry (current_entry st') ns bs ev inds = Inr e \<longrightarrow>
        artg e = map_of (current_entry st') ''artg'' \<and>
        comment e = map_of (current_entry st') ''artg_comment'')"
proof -
  from assms(1) have s: "s \<noteq> []" "strip s = s" using norm_StrV by blast+
  have sa: "split_artg (norm (row_artg r)) = Inr (NoneV, StrV s)"
    using assms(1,2) s by (simp add: split_artg_non_digit)
  from assms(3) obtain st2 where
    o: "open_slots NoneV (fst (norm_name (row_name r) mp)) (snd (norm_name (row_name r) mp))
          (norm (row_batch r)) (norm (row_provided r)) st = Inr st2" and
    a: "add_fields NoneV (norm (row_sponsor r)) (norm (row_manufacturer r)) (StrV s)
          (snd (norm_name (row_name r) mp)) (norm (row_batch r)) (norm (row_wild r))
          (norm (row_delta r)) (norm (row_omicron r)) (norm (row_quality r))
          (norm (row_provided r)) st2 = Inr st'"
    by (auto simp: build_row_def Let_def sa close_entry_absent split: sum.splits)
  from open_slots_absent [OF o] add_fields_entry [OF a]
  have ce: "current_entry st' =
      add_entry_fields (current_entry st) NoneV (norm (row_sponsor r))
        (norm (row_manufacturer r)) (StrV s)" and en: "entries st' = entries st"
    by simp_all
  have 1: "map_of (current_entry st') ''artg'' =
       Some (strip (case map_of (current_entry st) ''artg'' of None \<Rightarrow> [] | Some t \<Rightarrow> t))"
    by (simp only: ce add_entry_fields_artg)
  have 2: "map_of (current_entry st') ''artg_comment'' =
       Some (strip ((case map_of (current_entry st) ''artg_comment'' of None \<Rightarrow> [] | Some t \<Rightarrow> t)
                    @ '' '' @ s))"
    by (simp only: ce add_entry_fields_comment)
  have 3: "map_of (current_entry st') ''artg'' = Some [] \<and>
        map_of (current_entry st') ''artg_comment'' = Some s" if "current_entry st = []"
    using that 1 2 s strip_Cons_space [OF isspace_space, of s] by (simp add: strip_def)
  have 4: "artg e = map_of (current_entry st') ''artg'' \<and>
        comment e = map_of (current_entry st') ''artg_comment''"
    if "build_entry (current_entry st') ns bs ev inds = Inr e" for ns bs ev e
    using that by (auto simp: build_entry_def split: sum.splits option.splits)
  from en 1 2 3 4 show ?thesis by blast
qed

theorem non_digit_identifier_row_witness:
  "norm (row_artg withdrawn_row) = StrV ''ARTG12345(withdrawn)'' \<and>
   \<not> list_all isdigit ''ARTG12345(withdrawn)'' \<and>
   (\<exists>st'. build_row example_legend ''*'' init_state withdrawn_row = Inr st' \<and>
      entries st' = [] \<and>
      map_of (current_entry st') ''artg'' = Some [] \<and>
      map_of (current_entry st') ''artg_comment'' = Some ''ARTG12345(withdrawn)'')"
proof -
  have n: "norm (row_artg withdrawn_row) = StrV ''ARTG12345(withdrawn)''"
    by (simp add: withdrawn_row_def example_row_def norm_def strip_def isspace_def)
  have d: "\<not> list_all isdigit ''ARTG12345(withdrawn)''"
    by (simp add: isdigit_def)
  obtain st' where st': "build_row example_legend ''*'' init_state withdrawn_row = Inr st'"
    by (simp add: example_legend_def example_row_def withdrawn_row_def build_row_def
      norm_def norm_name_def strip_def isspace_def split_artg_def isdigit_def close_entry_def
      open_slots_def add_fields_def list_add_def startswith_def init_state_def colon_in_def
      Let_def)
  from non_digit_identifier_row [OF n d st']
  have "entries st' = entries init_state"
    and "current_entry init_state = [] \<longrightarrow>
        map_of (current_entry st') ''artg'' = Some [] \<and>
        map_of (current_entry st') ''artg_comment'' = Some ''ARTG12345(withdrawn)''"
    by blast+
  then have "entries st' = [] \<and> map_of (current_entry st') ''artg'' = Some [] \<and>
        map_of (current_entry st') ''artg_comment'' = Some ''ARTG12345(withdrawn)''"
    by (simp add: init_state_def)
  with n d st' show ?thesis by blast
qed

section \<open>Parsing the evidence slots\<close>

lemma split_chr_nonempty: "split_chr d s \<noteq> []"
  by (induction s) (auto split: list.splits)
















section \<open>Recording the legend\<close>

lemma str_in_nonempty: "sub \<noteq> [] \<Longrightarrow> str_in sub line \<Longrightarrow> line \<noteq> []"
  by (cases line) auto

lemma key_indicator_loop_total:
  "\<forall>kv \<in> set kl. snd kv \<noteq> [] \<Longrightarrow> \<exists>r. key_indicator_loop kl line = Inr r"
  by (induction kl) (auto split: list.splits dest: str_in_nonempty)

lemma key_lines_nonempty: "\<forall>kv \<in> set key_lines. snd kv \<noteq> []"
  by (simp add: key_lines_def)

lemma key_indicator_total: "\<exists>r. key_indicator line = Inr r"
  unfolding key_indicator_def using key_indicator_loop_total [OF key_lines_nonempty] .

lemma key_indicator_loop_find:
  "\<forall>kv \<in> set kl. snd kv \<noteq> [] \<Longrightarrow>
   key_indicator_loop kl line =
     Inr (map_option (\<lambda>kv. (fst kv, [hd line])) (find (\<lambda>kv. str_in (snd kv) line) kl))"
  by (induction kl) (auto split: list.splits dest: str_in_nonempty)

lemma key_indicator_find:
  "key_indicator line =
     Inr (map_option (\<lambda>kv. (fst kv, [hd line])) (find (\<lambda>kv. str_in (snd kv) line) key_lines))"
  unfolding key_indicator_def using key_indicator_loop_find [OF key_lines_nonempty] .

lemma read_indicator_step:
  "read_indicator inds line =
     Inr (case find (\<lambda>kv. str_in (snd kv) line) key_lines of
            None \<Rightarrow> inds
          | Some kv \<Rightarrow> inds(fst kv \<mapsto> [hd line]))"
  by (simp add: read_indicator_def key_indicator_find split: option.splits)

lemma read_indicators_total: "\<exists>inds'. read_indicators inds ls = Inr inds'"
  by (induction ls arbitrary: inds) (auto simp: read_indicator_step)

lemma read_indicators_unrecognised:
  "read_indicators inds ls = Inr inds' \<Longrightarrow>
   \<forall>l \<in> set ls. \<forall>c. key_indicator l \<noteq> Inr (Some (k, c)) \<Longrightarrow> inds' k = inds k"
proof (induction ls arbitrary: inds)
  case Nil
  then show ?case by simp
next
  case (Cons l ls)
  from Cons.prems(1) obtain inds1 where
    1: "read_indicator inds l = Inr inds1" and 2: "read_indicators inds1 ls = Inr inds'"
    by (auto split: sum.splits)
  from Cons.prems(2) have "\<forall>c. key_indicator l \<noteq> Inr (Some (k, c))" by simp
  with 1 have "inds1 k = inds k"
    by (cases "key_indicator l") (auto simp: read_indicator_def split: option.splits)
  moreover from Cons.IH [OF 2] Cons.prems(2) have "inds' k = inds1 k" by simp
  ultimately show ?case by simp
qed

lemma read_indicators_app:
  "read_indicators inds (xs @ ys) =
     (case read_indicators inds xs of Inl e \<Rightarrow> Inl e | Inr inds1 \<Rightarrow> read_indicators inds1 ys)"
  by (induction xs arbitrary: inds) (auto split: sum.splits)

lemma read_indicators_last:
  assumes "read_indicators inds (pre @ l # post) = Inr inds'"
    and "key_indicator l = Inr (Some (k, c))"
    and "\<forall>l' \<in> set post. \<forall>c'. key_indicator l' \<noteq> Inr (Some (k, c'))"
  shows "inds' k = Some c"
proof -
  from assms(1) obtain inds1 where 1: "read_indicators inds pre = Inr inds1"
    and 2: "read_indicators inds1 (l # post) = Inr inds'"
    by (auto simp: read_indicators_app split: sum.splits)
  from 2 assms(2) have "read_indicators (inds1(k \<mapsto> c)) post = Inr inds'"
    by (simp add: read_indicator_def)
  from read_indicators_unrecognised [OF this assms(3)] show ?thesis by simp
qed

text \<open>
  C2, as stated, fails.  \<open>read\<close> assigns \<open>indicators[key]\<close> for every line that
  holds a legend sentence, with no test for a value recorded earlier: of two lines with
  the compliant sentence, led by \<open>Y\<close> and then by \<open>X\<close>, the second one stays.
\<close>

theorem later_legend_line_overwrites:
  "read_indicators Map.empty
     [''Y Compliant with the WHO guidelines (LOD within range 100-1000 TCID50/mL) during TGA validation'',
      ''X Compliant with the WHO guidelines (LOD within range 100-1000 TCID50/mL) during TGA validation'']
   = Inr [''yes'' \<mapsto> ''X'']"
  by (simp add: read_indicator_def key_indicator_def key_lines_def startswith_def)

text \<open>
  C2, amended.  \<open>_key_indicator\<close> never raises: it returns the first key of
  \<open>_key_lines\<close>, in the order \<open>yes\<close>, \<open>no\<close>, \<open>multiple-products\<close>,
  \<open>tests-protein-studies\<close>, whose sentence the line contains, with the leading character
  of the line, and nothing when the line contains none of the sentences.  After any
  lines the value recorded for a key is the leading character of the last line that was
  recognised for that key, and a key for which no line was recognised keeps the value
  it had before: a later legend line overwrites the value of its key and leaves the
  other keys alone, and any other line changes nothing.
\<close>

theorem last_legend_line_wins:
  "(key_indicator line =
      Inr (map_option (\<lambda>kv. (fst kv, [hd line]))
             (find (\<lambda>kv. str_in (snd kv) line) key_lines))) \<and>
   (\<exists>inds'. read_indicators inds ls = Inr inds' \<and>
      (\<forall>k. (\<forall>l \<in> set ls. \<forall>c. key_indicator l \<noteq> Inr (Some (k, c))) \<longrightarrow> inds' k = inds k) \<and>
      (\<forall>k pre l post c.
          ls = pre @ l # post \<and> key_indicator l = Inr (Some (k, c)) \<and>
          (\<forall>l' \<in> set post. \<forall>c'. key_indicator l' \<noteq> Inr (Some (k, c'))) \<longrightarrow>
          inds' k = Some c \<and> c = [hd l]) \<and>
      (\<forall>l k c. key_indicator l = Inr (Some (k, c)) \<longrightarrow>
          read_indicators inds (ls @ [l]) = Inr (inds'(k \<mapsto> c))) \<and>
      (\<forall>l. key_indicator l = Inr None \<longrightarrow> read_indicators inds (ls @ [l]) = Inr inds'))"
proof -
  obtain inds' where r: "read_indicators inds ls = Inr inds'"
    using read_indicators_total by blast
  have 1: "inds' k = inds k" if "\<forall>l \<in> set ls. \<forall>c. key_indicator l \<noteq> Inr (Some (k, c))" for k
    using read_indicators_unrecognised [OF r that] .
  have 2: "inds' k = Some c \<and> c = [hd l]"
    if "ls = pre @ l # post \<and> key_indicator l = Inr (Some (k, c)) \<and>
          (\<forall>l' \<in> set post. \<forall>c'. key_indicator l' \<noteq> Inr (Some (k, c')))" for k pre l post c
  proof -
    from that r have "inds' k = Some c"
      using read_indicators_last [of inds pre l post inds' k c] by simp
    moreover from that have "c = [hd l]"
      by (auto simp: key_indicator_find)
    ultimately show ?thesis by simp
  qed
  have 3: "read_indicators inds (ls @ [l]) = Inr (inds'(k \<mapsto> c))"
    if "key_indicator l = Inr (Some (k, c))" for l k c
    using that r by (simp add: read_indicators_app read_indicator_def)
  have 4: "read_indicators inds (ls @ [l]) = Inr inds'" if "key_indicator l = Inr None" for l
    using that r by (simp add: read_indicators_app read_indicator_def)
  from r 1 2 3 4 key_indicator_find [of line] show ?thesis by blast
qed

theorem last_legend_line_wins_witness:
  "\<exists>inds'. read_indicators Map.empty example_page_lines = Inr inds' \<and>
      inds' ''yes'' = Some ''X'' \<and> inds' ''no'' = None"
proof -
  let ?y = "''Y Compliant with the WHO guidelines (LOD within range 100-1000 TCID50/mL) during TGA validation''"
  let ?x = "''X Compliant with the WHO guidelines (LOD within range 100-1000 TCID50/mL) during TGA validation''"
  have ky: "key_indicator ?y = Inr (Some (''yes'', ''Y''))"
    by (simp add: key_indicator_def key_lines_def startswith_def)
  have kx: "key_indicator ?x = Inr (Some (''yes'', ''X''))"
    by (simp add: key_indicator_def key_lines_def startswith_def)
  have k2: "key_indicator ''12345  Acme  Maker  Kit'' = Inr None"
    by (simp add: key_indicator_def key_lines_def startswith_def)
  have k4: "key_indicator ''       continued text'' = Inr None"
    by (simp add: key_indicator_def key_lines_def startswith_def)
  from last_legend_line_wins [of "[]" Map.empty example_page_lines]
  obtain inds' where r: "read_indicators Map.empty example_page_lines = Inr inds'"
    and a: "\<forall>k. (\<forall>l \<in> set example_page_lines. \<forall>c. key_indicator l \<noteq> Inr (Some (k, c))) \<longrightarrow>
              inds' k = Map.empty k"
    and b: "\<forall>k pre l post c.
          example_page_lines = pre @ l # post \<and> key_indicator l = Inr (Some (k, c)) \<and>
          (\<forall>l' \<in> set post. \<forall>c'. key_indicator l' \<noteq> Inr (Some (k, c'))) \<longrightarrow>
          inds' k = Some c \<and> c = [hd l]"
    by blast
  have "\<forall>l \<in> set example_page_lines. \<forall>c. key_indicator l \<noteq> Inr (Some (''no'', c))"
    using ky kx k2 k4 by (simp add: example_page_lines_def)
  with a have no: "inds' ''no'' = None" by simp
  have "example_page_lines = [?y, ''12345  Acme  Maker  Kit''] @ ?x # [''       continued text'']"
    by (simp add: example_page_lines_def)
  moreover have "\<forall>l' \<in> set [''       continued text'']. \<forall>c'. key_indicator l' \<noteq> Inr (Some (''yes'', c'))"
    using k4 by simp
  ultimately have yes: "inds' ''yes'' = Some ''X''"
    using b kx by blast
  from r yes no show ?thesis by blast
qed

section \<open>The order of the batches of an entry\<close>

lemma eval_sensitivities_ok: "\<exists>r. eval_sensitivities acc xs = Inr r"
  by (induction xs arbitrary: acc) auto

lemma eval_review_batches_cases:
  assumes "1 < length bs" and "\<not> list_ex (\<lambda>b. batch b = None) bs"
  shows "eval_review_batches bs =
     (if \<not> list_all (\<lambda>x. \<not> all_compliant x) (butlast bs) \<and> \<not> list_all all_compliant (butlast bs)
      then Inl ValueError
      else eval_sensitivities [] (analytical_sensitivities (last (sort_key batch_key bs))))"
proof -
  from assms(1) have "bs \<noteq> []" by auto
  with assms show ?thesis
    by (simp add: eval_review_batches_def sorted_batches_def Let_def)
qed

text \<open>
  C7.  For an entry with more than one batch, each with its batch string,
  \<open>_eval_review_batches\<close> raises \<open>ValueError\<close> exactly when the batches before the last
  are neither all not fully compliant nor all fully compliant, and it raises nothing
  else.  Three batches that are fully compliant as \<open>[false, false, true]\<close> give a
  result; as \<open>[false, true, false]\<close> they raise.
\<close>

theorem ambiguous_batch_order:
  assumes "1 < length bs" and "\<not> list_ex (\<lambda>b. batch b = None) bs"
  shows "(eval_review_batches bs = Inl ValueError \<longleftrightarrow>
            \<not> list_all (\<lambda>x. \<not> all_compliant x) (butlast bs) \<and>
            \<not> list_all all_compliant (butlast bs)) \<and>
         (\<forall>e. eval_review_batches bs = Inl e \<longrightarrow> e = ValueError) \<and>
         (map all_compliant bs = [False, False, True] \<longrightarrow>
            (\<exists>r. eval_review_batches bs = Inr r)) \<and>
         (map all_compliant bs = [False, True, False] \<longrightarrow>
            eval_review_batches bs = Inl ValueError)"
proof -
  let ?mixed = "\<not> list_all (\<lambda>x. \<not> all_compliant x) (butlast bs) \<and>
            \<not> list_all all_compliant (butlast bs)"
  note c = eval_review_batches_cases [OF assms]
  obtain r where r: "eval_sensitivities [] (analytical_sensitivities (last (sort_key batch_key bs))) = Inr r"
    using eval_sensitivities_ok by blast
  have 1: "eval_review_batches bs = Inl ValueError \<longleftrightarrow> ?mixed"
    using c r by (auto split: if_splits)
  have 2: "e = ValueError" if "eval_review_batches bs = Inl e" for e
    using c r that by (auto split: if_splits)
  have 3: "\<exists>r. eval_review_batches bs = Inr r" if "map all_compliant bs = [False, False, True]"
  proof -
    from that obtain b1 b2 b3 where bs: "bs = [b1, b2, b3]"
      and "\<not> all_compliant b1" "\<not> all_compliant b2"
      by (auto simp: map_eq_Cons_conv)
    then have "\<not> ?mixed" by simp
    with c r show ?thesis by auto
  qed
  have 4: "eval_review_batches bs = Inl ValueError" if "map all_compliant bs = [False, True, False]"
  proof -
    from that obtain b1 b2 b3 where bs: "bs = [b1, b2, b3]"
      and "\<not> all_compliant b1" "all_compliant b2"
      by (auto simp: map_eq_Cons_conv)
    then have "?mixed" by simp
    with 1 show ?thesis by blast
  qed
  from 1 2 3 4 show ?thesis by blast
qed

theorem ambiguous_batch_order_witness:
  "map all_compliant [example_batch ''B1'' False, example_batch ''B2'' False, example_batch ''B3'' True]
     = [False, False, True] \<and>
   (\<exists>r. eval_review_batches
          [example_batch ''B1'' False, example_batch ''B2'' False, example_batch ''B3'' True] = Inr r) \<and>
   map all_compliant [example_batch ''B1'' False, example_batch ''B2'' True, example_batch ''B3'' False]
     = [False, True, False] \<and>
   eval_review_batches
     [example_batch ''B1'' False, example_batch ''B2'' True, example_batch ''B3'' False] = Inl ValueError"
  using ambiguous_batch_order
          [of "[example_batch ''B1'' False, example_batch ''B2'' False, example_batch ''B3'' True]"]
        ambiguous_batch_order
          [of "[example_batch ''B1'' False, example_batch ''B2'' True, example_batch ''B3'' False]"]
  by (simp add: example_batch_def all_compliant_def)

section \<open>The column ranges of a header\<close>

lemma length_raw_columns: "length raw_columns = 10"
  by (simp add: raw_columns_def)

lemma length_col_sep: "length col_sep = 2"
  by (simp add: col_sep_def)

lemma dict_set_keys: "fst ` set (dict_set d k v) = insert k (fst ` set d)"
  by (induction d) auto

lemma dict_set_distinct: "distinct (map fst d) \<Longrightarrow> distinct (map fst (dict_set d k v))"
proof (induction d)
  case Nil
  then show ?case by simp
next
  case (Cons kv d)
  then show ?case
    using dict_set_keys [of d k v] by (auto simp: image_iff)
qed

lemma merge_match_distinct:
  "merge_match ini h = Inr ini' \<Longrightarrow> distinct (map fst ini) \<Longrightarrow> distinct (map fst ini')"
  by (auto simp: merge_match_def Let_def dict_set_distinct split: if_splits option.splits)

lemma merge_matches_distinct:
  "merge_matches ini hs = Inr ini' \<Longrightarrow> distinct (map fst ini) \<Longrightarrow> distinct (map fst ini')"
  by (induction hs arbitrary: ini) (auto split: sum.splits dest: merge_match_distinct)

lemma build_initial_distinct:
  "build_initial ini a = Inr ini' \<Longrightarrow> distinct (map fst ini) \<Longrightarrow> distinct (map fst ini')"
  by (induction a arbitrary: ini) (auto split: sum.splits dest: merge_matches_distinct)

lemma header_ranges_sound:
  "header_ranges ini acc xs = Inr res \<Longrightarrow> map_of res i = Some r \<Longrightarrow>
   map_of acc i = Some r \<or> (\<exists>h. (i, h) \<in> set xs \<and> header_range ini i h = Inr r)"
proof (induction xs arbitrary: acc)
  case Nil
  then show ?case by simp
next
  case (Cons ih xs)
  from Cons.prems(1) obtain r0 where r0: "header_range ini (fst ih) (snd ih) = Inr r0"
    and rest: "header_ranges ini (dict_set acc (fst ih) r0) xs = Inr res"
    by (auto split: sum.splits)
  from Cons.IH [OF rest Cons.prems(2)]
  show ?case
  proof
    assume "map_of (dict_set acc (fst ih) r0) i = Some r"
    then show ?thesis
      using r0 by (cases ih) (auto simp: map_of_dict_set split: if_splits)
  next
    assume "\<exists>h. (i, h) \<in> set xs \<and> header_range ini i h = Inr r"
    then show ?thesis by auto
  qed
qed

lemma header_ranges_keys:
  "header_ranges ini acc xs = Inr res \<Longrightarrow> fst ` set res = fst ` set acc \<union> fst ` set xs"
proof (induction xs arbitrary: acc)
  case Nil
  then show ?case by simp
next
  case (Cons ih xs)
  from Cons.prems(1) obtain r0 where
    rest: "header_ranges ini (dict_set acc (fst ih) r0) xs = Inr res"
    by (auto split: sum.splits)
  from Cons.IH [OF rest] show ?case by (simp add: dict_set_keys)
qed

lemma header_range_props:
  assumes "header_range ini i h = Inr r"
  shows "i < 10 \<and> (i = 0 \<longrightarrow> hi_start r = 0) \<and> (0 < i \<longrightarrow> hi_start r = span_start h) \<and>
         (i = 9 \<longrightarrow> hi_end r = - 1) \<and>
         (i < 9 \<longrightarrow> (\<exists>nx. map_of ini (i + 1) = Some nx \<and>
            (col_align (raw_columns ! (i + 1)) = Left \<longrightarrow> hi_end r = span_start nx - 2) \<and>
            (col_align (raw_columns ! (i + 1)) = Middle \<longrightarrow> hi_end r = span_end h))) \<and>
         0 \<le> hi_start r \<and> (hi_start r < hi_end r \<or> hi_end r < 0)"
  using assms
  by (auto simp: header_range_def Let_def length_raw_columns length_col_sep
      split: if_splits option.splits sum.splits prod.splits)


lemma pdf_header_lines_eval: "pdf_header_lines =
 [[''ARTG'', ''Sponsor'', ''Manufacturer'', ''Test Kit name'',
   ''TGA testing'', ''TGA'', ''TGA'', ''TGA'', ''TGA'', ''Manufacturer''],
  [[], [], [], [], [], ''testing'', ''testing'', ''testing'', ''testing'',
   ''provided evidence''],
  [[], [], [], [], ''Batch number'', [], [], [], [], []],
  [[], [], [], [], [], ''Wild type'', ''Delta'', ''Omicron'', ''Device'',
   []],
  [[], [], [], [], [], ''analytical'', ''analytical'', ''analytical'',
   ''quality'', []],
  [[], [], [], [], [], ''sensitivity'', ''sensitivity'', ''sensitivity'',
   [], []]]"
  by (simp add: pdf_header_lines_def pdf_header_rows_def raw_columns_def upt_rec [of 0] upt_rec [of 1]
     upt_rec [of 2] upt_rec [of 3] upt_rec [of 4] upt_rec [of 5] upt_rec [of 6] Let_def)



text \<open>
  C4, as stated, fails.  On the six example header lines the detection is complete and
  \<open>header_indexes\<close> returns ranges that are neither contiguous nor free of overlap:
  a range ends two characters before a left-aligned neighbour starts, the range of
  \<open>name\<close> ends at 42 while \<open>batch\<close> starts at 50, and the range of \<open>batch\<close> ends at 65
  while \<open>wild\<close> starts at 63.
\<close>

theorem header_ranges_gap_and_overlap:
  "detect_header example_header_lines = Inr (Some example_ranges) \<and>
   \<not> ranges_contiguous example_ranges \<and>
   \<not> ranges_non_overlapping example_ranges"
proof -
  have "detect_header example_header_lines = Inr (Some example_ranges)"
    by (simp add: detect_header_def example_header_lines_def example_ranges_def
      add_header_line_def is_complete_def pdf_header_rows_def pdf_header_lines_eval str_index_def startswith_def
      header_indexes_def merge_match_def header_range_def Let_def raw_columns_def col_sep_def)
  moreover have "\<not> ranges_contiguous example_ranges"
    by (simp add: ranges_contiguous_def example_ranges_def)
  moreover have "\<not> ranges_non_overlapping example_ranges"
    by (simp add: ranges_non_overlapping_def example_ranges_def)
  ultimately show ?thesis by (intro conjI)
qed

lemma header_range_at:
  assumes "header_indexes a = Inr res" and "map_of res i = Some r"
  shows "i < length raw_columns \<and>
     (i = 0 \<longrightarrow> hi_start r = 0) \<and>
     (i + 1 = length raw_columns \<longrightarrow> hi_end r = - 1) \<and>
     (i + 1 < length raw_columns \<longrightarrow>
        (\<exists>r'. map_of res (i + 1) = Some r' \<and>
           (col_align (raw_columns ! (i + 1)) = Left \<longrightarrow>
              hi_end r = hi_start r' - int (length col_sep)))) \<and>
     0 \<le> hi_start r \<and> (hi_start r < hi_end r \<or> hi_end r < 0)"
proof -
  from assms(1) obtain ini where ini: "build_initial [] a = Inr ini"
    and res: "header_ranges ini [] ini = Inr res"
    by (auto simp: header_indexes_def split: sum.splits)
  from build_initial_distinct [OF ini] have dist: "distinct (map fst ini)" by simp
  from header_ranges_sound [OF res assms(2)] obtain h where
    h: "(i, h) \<in> set ini" "header_range ini i h = Inr r" by auto
  note p = header_range_props [OF h(2)]
  have next_col: "\<exists>r'. map_of res (i + 1) = Some r' \<and>
           (col_align (raw_columns ! (i + 1)) = Left \<longrightarrow> hi_end r = hi_start r' - 2)"
    if "i < 9"
  proof -
    from p that obtain nx where nx: "map_of ini (i + 1) = Some nx"
      and l: "col_align (raw_columns ! (i + 1)) = Left \<longrightarrow> hi_end r = span_start nx - 2"
      by blast
    from nx have "(i + 1, nx) \<in> set ini" by (rule map_of_SomeD)
    then have "i + 1 \<in> fst ` set res"
      using header_ranges_keys [OF res] by force
    then obtain r' where r': "map_of res (i + 1) = Some r'"
      by (cases "map_of res (i + 1)") (auto simp: map_of_eq_None_iff)
    from header_ranges_sound [OF res r'] obtain h' where
      h': "(i + 1, h') \<in> set ini" "header_range ini (i + 1) h' = Inr r'" by auto
    from dist h'(1) have "map_of ini (i + 1) = Some h'" by simp
    with nx have "h' = nx" by simp
    with header_range_props [OF h'(2)] have "hi_start r' = span_start nx" by simp
    with l r' show ?thesis by simp
  qed
  from p next_col show ?thesis
    by (simp add: length_raw_columns length_col_sep)
qed

lemma pdf_header_rows_eval: "pdf_header_rows = 6"
  by (simp add: pdf_header_rows_def raw_columns_def)

lemma match_headers_items:
  "match_headers line ci acc idx hs = Inr (res, ci') \<Longrightarrow> res \<noteq> [] \<Longrightarrow>
   map item res =
     map item acc @ map fst (filter (\<lambda>p. snd p \<noteq> []) (enumerate idx hs))"
proof (induction hs arbitrary: ci acc idx)
  case Nil
  then show ?case by simp
next
  case (Cons h hs)
  show ?case
  proof (cases "str_in h (drop ci line)")
    case False
    with Cons.prems show ?thesis by simp
  next
    case True
    show ?thesis
    proof (cases "h = []")
      case True
      with Cons.prems \<open>str_in h (drop ci line)\<close>
      have "match_headers line ci acc (Suc idx) hs = Inr (res, ci')" by simp
      from Cons.IH [OF this Cons.prems(2)] True show ?thesis
        by simp
    next
      case False
      with Cons.prems \<open>str_in h (drop ci line)\<close> obtain start where
        "match_headers line (start + length h)
           (acc @ [\<lparr>header = h, start_index = start, end_index = start + length h, item = idx\<rparr>])
           (Suc idx) hs = Inr (res, ci')"
        by (auto split: sum.splits)
      from Cons.IH [OF this Cons.prems(2)] False show ?thesis
        by simp
    qed
  qed
qed

lemma match_lines_Some:
  "match_lines line ci [] k rows = Inr (Some (k', ms)) \<Longrightarrow>
   k \<le> k' \<and> k' < k + length rows \<and> ms \<noteq> [] \<and>
   (\<exists>ci0 ci1. match_headers line ci0 [] 0 (rows ! (k' - k)) = Inr (ms, ci1))"
proof (induction rows arbitrary: ci k)
  case Nil
  then show ?case by simp
next
  case (Cons headers rows)
  from Cons.prems obtain result' ci' where
    m: "match_headers line ci [] 0 headers = Inr (result', ci')"
    by (auto split: sum.splits)
  show ?case
  proof (cases "result' = []")
    case False
    with Cons.prems m have "k' = k" "ms = result'" by auto
    with m False show ?thesis by auto
  next
    case True
    with Cons.prems m have "match_lines line ci' [] (Suc k) rows = Inr (Some (k', ms))"
      by simp
    from Cons.IH [OF this] show ?thesis
      by (auto simp: Suc_diff_le)
  qed
qed


lemma dict_set_mem:
  "(k', v') \<in> set (dict_set d k v) \<Longrightarrow> (k', v') = (k, v) \<or> (k', v') \<in> set d"
  by (induction d) (auto split: if_splits)

lemma row0_items:
  "map fst (filter (\<lambda>p. snd p \<noteq> []) (enumerate 0 (pdf_header_lines ! 0))) =
     [0, 1, 2, 3, 4, 5, 6, 7, 8, 9]"
  by (simp add: pdf_header_lines_eval)

lemma length_pdf_header_lines: "length pdf_header_lines = 6"
  by (simp add: pdf_header_lines_eval)

lemma add_header_line_inv:
  assumes "add_header_line a line = Inr (b, a')"
    and "distinct (map fst a)"
    and "\<forall>(k, ms) \<in> set a. k < 6 \<and> (k = 0 \<longrightarrow> {0 ..< 10} \<subseteq> item ` set ms)"
  shows "distinct (map fst a') \<and>
         (\<forall>(k, ms) \<in> set a'. k < 6 \<and> (k = 0 \<longrightarrow> {0 ..< 10} \<subseteq> item ` set ms))"
proof (cases "a' = a")
  case True
  with assms show ?thesis by simp
next
  case False
  with assms(1) obtain k' ms where
    m: "match_lines line 0 [] 0 pdf_header_lines = Inr (Some (k', ms))"
    and a': "a' = dict_set a k' ms"
    by (auto simp: add_header_line_def split: if_splits sum.splits option.splits)
  from match_lines_Some [OF m] obtain ci0 ci1 where
    k': "k' < 6" and ms: "ms \<noteq> []"
    and mh: "match_headers line ci0 [] 0 (pdf_header_lines ! k') = Inr (ms, ci1)"
    by (auto simp: length_pdf_header_lines)
  have items: "{0 ..< 10} \<subseteq> item ` set ms" if "k' = 0"
  proof -
    from match_headers_items [OF mh ms] that
    have "map item ms = [0, 1, 2, 3, 4, 5, 6, 7, 8, 9]" by (simp add: row0_items)
    then have "set (map item ms) = set [0, 1, 2, 3, 4, 5, 6, 7, 8, 9]" by simp
    then have "item ` set ms = {0, 1, 2, 3, 4, 5, 6, 7, 8, 9}" by simp
    then show ?thesis by auto
  qed
  have "k < 6 \<and> (k = 0 \<longrightarrow> {0 ..< 10} \<subseteq> item ` set v)" if "(k, v) \<in> set a'" for k v
  proof -
    from that a' dict_set_mem [of k v a k' ms]
    have "(k, v) = (k', ms) \<or> (k, v) \<in> set a" by simp
    then show ?thesis
      using k' items assms(3) by auto
  qed
  moreover have "distinct (map fst a')"
    using assms(2) a' by (simp add: dict_set_distinct)
  ultimately show ?thesis by auto
qed

lemma add_header_lines_inv:
  "add_header_lines a lines = Inr a' \<Longrightarrow> distinct (map fst a) \<Longrightarrow>
   \<forall>(k, ms) \<in> set a. k < 6 \<and> (k = 0 \<longrightarrow> {0 ..< 10} \<subseteq> item ` set ms) \<Longrightarrow>
   distinct (map fst a') \<and>
   (\<forall>(k, ms) \<in> set a'. k < 6 \<and> (k = 0 \<longrightarrow> {0 ..< 10} \<subseteq> item ` set ms))"
proof (induction lines arbitrary: a)
  case Nil
  then show ?case by simp
next
  case (Cons line lines)
  from Cons.prems(1) obtain b a1 where
    1: "add_header_line a line = Inr (b, a1)" and 2: "add_header_lines a1 lines = Inr a'"
    by (auto split: sum.splits)
  from add_header_line_inv [OF 1 Cons.prems(2,3)] Cons.IH [OF 2]
  show ?case by blast
qed

lemma complete_has_row0:
  assumes "is_complete a" and "distinct (map fst a)" and "\<forall>(k, ms) \<in> set a. k < 6"
  shows "\<exists>ms. (0, ms) \<in> set a"
proof -
  from assms(1) have len: "length a = 6"
    by (simp add: is_complete_def pdf_header_rows_eval)
  from assms(3) have sub: "set (map fst a) \<subseteq> {0 ..< 6}" by auto
  from assms(2) len have "card (set (map fst a)) = 6"
    using distinct_card [of "map fst a"] by simp
  with sub have "set (map fst a) = {0 ..< 6}"
    by (intro card_subset_eq) simp_all
  then have "0 \<in> fst ` set a" by simp
  then show ?thesis by force
qed

lemma merge_match_keys:
  "merge_match ini h = Inr ini' \<Longrightarrow> fst ` set ini' = insert (item h) (fst ` set ini)"
proof -
  assume "merge_match ini h = Inr ini'"
  then obtain v where "ini' = dict_set ini (item h) v"
    by (auto simp: merge_match_def Let_def split: if_splits option.splits)
  then show ?thesis by (simp only: dict_set_keys)
qed

lemma merge_matches_keys:
  "merge_matches ini hs = Inr ini' \<Longrightarrow> fst ` set ini' = fst ` set ini \<union> item ` set hs"
proof (induction hs arbitrary: ini)
  case Nil
  then show ?case by simp
next
  case (Cons h hs)
  from Cons.prems obtain ini1 where
    1: "merge_match ini h = Inr ini1" and 2: "merge_matches ini1 hs = Inr ini'"
    by (auto split: sum.splits)
  from merge_match_keys [OF 1] Cons.IH [OF 2] show ?case by auto
qed

lemma build_initial_keys:
  "build_initial ini a = Inr ini' \<Longrightarrow>
   fst ` set ini \<subseteq> fst ` set ini' \<and> (\<forall>(k, ms) \<in> set a. item ` set ms \<subseteq> fst ` set ini')"
proof (induction a arbitrary: ini)
  case Nil
  then show ?case by simp
next
  case (Cons lh a)
  from Cons.prems obtain ini1 where
    1: "merge_matches ini (snd lh) = Inr ini1" and 2: "build_initial ini1 a = Inr ini'"
    by (auto split: sum.splits)
  from merge_matches_keys [OF 1] Cons.IH [OF 2] show ?case
    by (cases lh) auto
qed

lemma complete_all_columns:
  assumes "add_header_lines [] lines = Inr a" and "is_complete a"
    and "header_indexes a = Inr res" and "i < 10"
  shows "map_of res i \<noteq> None"
proof -
  from add_header_lines_inv [OF assms(1)]
  have d: "distinct (map fst a)"
    and r: "\<forall>(k, ms) \<in> set a. k < 6 \<and> (k = 0 \<longrightarrow> {0 ..< 10} \<subseteq> item ` set ms)"
    by simp_all
  from r have "\<forall>(k, ms) \<in> set a. k < 6" by auto
  from complete_has_row0 [OF assms(2) d this] obtain ms where ms: "(0, ms) \<in> set a" by blast
  with r have items: "{0 ..< 10} \<subseteq> item ` set ms" by auto
  from assms(3) obtain ini where ini: "build_initial [] a = Inr ini"
    and res: "header_ranges ini [] ini = Inr res"
    by (auto simp: header_indexes_def split: sum.splits)
  from build_initial_keys [OF ini]
  have "\<forall>(k, ms) \<in> set a. item ` set ms \<subseteq> fst ` set ini" by simp
  from bspec [OF this ms] have "item ` set ms \<subseteq> fst ` set ini" by simp
  moreover from assms(4) have "i \<in> {0 ..< 10}" by simp
  ultimately have "i \<in> fst ` set ini" using items by blast
  with header_ranges_keys [OF res] have "i \<in> fst ` set res" by simp
  then show ?thesis by (simp add: map_of_eq_None_iff)
qed

lemma merge_matches_append:
  "merge_matches ini (xs @ ys) =
     (case merge_matches ini xs of Inl e \<Rightarrow> Inl e | Inr ini1 \<Rightarrow> merge_matches ini1 ys)"
  by (induction xs arbitrary: ini) (auto split: sum.splits)

lemma build_initial_concat:
  "build_initial ini a = merge_matches ini (concat (map snd a))"
  by (induction a arbitrary: ini) (auto simp: merge_matches_append split: sum.splits)

lemma merge_match_lookup:
  assumes "merge_match ini m = Inr ini'"
  shows "map_of ini' i =
     (if i = item m then
        Some (case map_of ini i of
                None \<Rightarrow> \<lparr>span_name = col_name (raw_columns ! i),
                          span_start = int (start_index m), span_end = int (end_index m)\<rparr>
              | Some cur \<Rightarrow> cur\<lparr>span_start := min (int (start_index m)) (span_start cur),
                                span_end := max (int (end_index m)) (span_end cur)\<rparr>)
      else map_of ini i)"
  using assms
  by (auto simp: merge_match_def Let_def map_of_dict_set min_def max_def
      split: if_splits option.splits)

lemma merge_matches_spans:
  "merge_matches [] ms = Inr ini \<Longrightarrow> map_of ini i = Some h \<Longrightarrow>
   span_name h = col_name (raw_columns ! i) \<and>
   span_start h = Min ((\<lambda>m. int (start_index m)) ` {m \<in> set ms. item m = i}) \<and>
   span_end h = Max ((\<lambda>m. int (end_index m)) ` {m \<in> set ms. item m = i})"
proof (induction ms arbitrary: ini h rule: rev_induct)
  case Nil
  then show ?case by simp
next
  case (snoc m ms)
  let ?A = "{x \<in> set ms. item x = i}"
  let ?B = "{x \<in> set (ms @ [m]). item x = i}"
  from snoc.prems(1) obtain ini1 where
    1: "merge_matches [] ms = Inr ini1" and 2: "merge_match ini1 m = Inr ini"
    by (auto simp: merge_matches_append split: sum.splits)
  note look = merge_match_lookup [OF 2, of i]
  show ?case
  proof (cases "i = item m")
    case False
    then have eq: "?B = ?A" by auto
    from False look snoc.prems(2) have "map_of ini1 i = Some h" by simp
    from snoc.IH [OF 1 this] show ?thesis by (simp only: eq)
  next
    case True
    then have ins: "?B = insert m ?A" by auto
    have fin: "finite ?A" by simp
    show ?thesis
    proof (cases "map_of ini1 i")
      case None
      then have "i \<notin> fst ` set ini1" by (simp add: map_of_eq_None_iff)
      with merge_matches_keys [OF 1] have "i \<notin> item ` set ms" by simp
      then have emp: "?A = {}" by auto
      from None look True snoc.prems(2)
      have h: "h = \<lparr>span_name = col_name (raw_columns ! i),
                     span_start = int (start_index m), span_end = int (end_index m)\<rparr>"
        by simp
      show ?thesis by (simp only: h ins emp) simp
    next
      case (Some cur)
      from snoc.IH [OF 1 Some] have
        c: "span_name cur = col_name (raw_columns ! i)"
        "span_start cur = Min ((\<lambda>m. int (start_index m)) ` ?A)"
        "span_end cur = Max ((\<lambda>m. int (end_index m)) ` ?A)"
        by simp_all
      from Some have "i \<in> fst ` set ini1"
        using map_of_eq_None_iff [of ini1 i] by simp
      with merge_matches_keys [OF 1] have "i \<in> item ` set ms" by simp
      then have ne: "?A \<noteq> {}" by auto
      from Some look True snoc.prems(2)
      have h: "h = cur\<lparr>span_start := min (int (start_index m)) (span_start cur),
                       span_end := max (int (end_index m)) (span_end cur)\<rparr>" by simp
      have "Min ((\<lambda>m. int (start_index m)) ` insert m ?A) =
              min (int (start_index m)) (Min ((\<lambda>m. int (start_index m)) ` ?A))"
        using ne fin by simp
      moreover have "Max ((\<lambda>m. int (end_index m)) ` insert m ?A) =
              max (int (end_index m)) (Max ((\<lambda>m. int (end_index m)) ` ?A))"
        using ne fin by simp
      ultimately show ?thesis
        using c by (simp only: h ins) simp
    qed
  qed
qed


lemma header_range_names:
  "header_range ini i h = Inr r \<Longrightarrow>
   hi_name r = span_name h \<and> hi_align r = col_align (raw_columns ! i)"
  by (auto simp: header_range_def Let_def split: if_splits option.splits sum.splits prod.splits)

lemma header_range_spans:
  assumes "header_indexes a = Inr res" and "map_of res i = Some r"
  shows "hi_name r = col_name (raw_columns ! i) \<and>
     hi_align r = col_align (raw_columns ! i) \<and>
     (0 < i \<longrightarrow>
        hi_start r =
          Min ((\<lambda>m. int (start_index m)) ` {m \<in> set (concat (map snd a)). item m = i})) \<and>
     (i + 1 < length raw_columns \<and> col_align (raw_columns ! (i + 1)) \<noteq> Left \<longrightarrow>
        hi_end r =
          Max ((\<lambda>m. int (end_index m)) ` {m \<in> set (concat (map snd a)). item m = i}))"
proof -
  from assms(1) obtain ini where ini: "build_initial [] a = Inr ini"
    and res: "header_ranges ini [] ini = Inr res"
    by (auto simp: header_indexes_def split: sum.splits)
  from build_initial_distinct [OF ini] have dist: "distinct (map fst ini)" by simp
  from header_ranges_sound [OF res assms(2)] obtain h where
    h: "(i, h) \<in> set ini" "header_range ini i h = Inr r" by auto
  from dist h(1) have "map_of ini i = Some h" by simp
  moreover from ini have "merge_matches [] (concat (map snd a)) = Inr ini"
    by (simp add: build_initial_concat)
  ultimately have sp: "span_name h = col_name (raw_columns ! i)"
    "span_start h = Min ((\<lambda>m. int (start_index m)) ` {m \<in> set (concat (map snd a)). item m = i})"
    "span_end h = Max ((\<lambda>m. int (end_index m)) ` {m \<in> set (concat (map snd a)). item m = i})"
    using merge_matches_spans by blast+
  note p = header_range_props [OF h(2)]
  have e: "hi_end r = span_end h"
    if "i + 1 < length raw_columns \<and> col_align (raw_columns ! (i + 1)) \<noteq> Left"
  proof -
    from that have "i < 9" by (simp add: length_raw_columns)
    moreover from that have "col_align (raw_columns ! (i + 1)) = Middle"
      by (cases "col_align (raw_columns ! (i + 1))") simp_all
    ultimately show ?thesis using p by auto
  qed
  from p have s: "hi_start r = span_start h" if "0 < i" using that by simp
  from header_range_names [OF h(2)] sp e s show ?thesis by simp
qed

text \<open>
  C4, amended.  Whenever \<open>header_indexes\<close> returns, each returned range belongs to one
  of the ten columns and carries the column's name and alignment, and after a completed
  detection every column has its range.  The range of the first column starts at 0, and
  the range of any other column starts at the smallest start offset of the column's
  matched fragments.  The range of the last column ends at \<open>-1\<close>, which stands for the
  rest of the line; a column before the last has a successor in the result; when that
  successor is left-aligned, the column's range ends at the successor's start minus the
  width of the column separator, and otherwise at the largest end offset of the column's
  own matched fragments.  Every range has a start that is not negative and lies before
  its end unless the end is negative.  Nothing is said about the ranges being contiguous
  or disjoint.
\<close>

theorem header_indexes_ranges:
  assumes "header_indexes a = Inr res"
  shows "(\<forall>i r. map_of res i = Some r \<longrightarrow>
            i < length raw_columns \<and>
            hi_name r = col_name (raw_columns ! i) \<and>
            hi_align r = col_align (raw_columns ! i) \<and>
            (i = 0 \<longrightarrow> hi_start r = 0) \<and>
            (0 < i \<longrightarrow>
               hi_start r =
                 Min ((\<lambda>m. int (start_index m)) `
                        {m \<in> set (concat (map snd a)). item m = i})) \<and>
            (i + 1 = length raw_columns \<longrightarrow> hi_end r = - 1) \<and>
            (i + 1 < length raw_columns \<longrightarrow>
               (\<exists>r'. map_of res (i + 1) = Some r' \<and>
                  (col_align (raw_columns ! (i + 1)) = Left \<longrightarrow>
                     hi_end r = hi_start r' - int (length col_sep)))) \<and>
            (i + 1 < length raw_columns \<and> col_align (raw_columns ! (i + 1)) \<noteq> Left \<longrightarrow>
               hi_end r =
                 Max ((\<lambda>m. int (end_index m)) `
                        {m \<in> set (concat (map snd a)). item m = i})) \<and>
            0 \<le> hi_start r \<and> (hi_start r < hi_end r \<or> hi_end r < 0)) \<and>
         (\<forall>lines. add_header_lines [] lines = Inr a \<and> is_complete a \<longrightarrow>
            (\<forall>i < length raw_columns. map_of res i \<noteq> None))"
proof (intro conjI allI impI)
  fix lines i
  assume "add_header_lines [] lines = Inr a \<and> is_complete a" and "i < length raw_columns"
  then show "map_of res i \<noteq> None"
    using complete_all_columns [of lines a res i] assms by (simp add: length_raw_columns)
next
  fix i r
  assume m: "map_of res i = Some r"
  assume "i + 1 < length raw_columns \<and> col_align (raw_columns ! (i + 1)) \<noteq> Left"
  then show "hi_end r =
                 Max ((\<lambda>m. int (end_index m)) `
                        {m \<in> set (concat (map snd a)). item m = i})"
    using header_range_spans [OF assms m] by blast
next
  fix i r
  assume m: "map_of res i = Some r" and "0 < i"
  then show "hi_start r =
                 Min ((\<lambda>m. int (start_index m)) `
                        {m \<in> set (concat (map snd a)). item m = i})"
    using header_range_spans [OF assms m] by blast
qed (use header_range_at [OF assms] header_range_spans [OF assms] in blast)+


theorem header_indexes_ranges_witness:
  "\<exists>a. add_header_lines [] example_header_lines = Inr a \<and>
        header_indexes a = Inr example_ranges \<and>
        map_of example_ranges 8 =
          Some \<lparr>hi_name = ''quality'', hi_start = 99, hi_end = 106, hi_align = Middle\<rparr> \<and>
        map_of example_ranges 9 =
          Some \<lparr>hi_name = ''provided'', hi_start = 108, hi_end = - 1, hi_align = Left\<rparr> \<and>
        col_align (raw_columns ! 9) = Left \<and>
        (106 :: int) = 108 - int (length col_sep) \<and>
        map_of example_ranges 4 =
          Some \<lparr>hi_name = ''batch'', hi_start = 50, hi_end = 65, hi_align = Middle\<rparr> \<and>
        col_align (raw_columns ! 5) = Middle \<and>
        Min ((\<lambda>m. int (start_index m)) ` {m \<in> set (concat (map snd a)). item m = 4}) = 50 \<and>
        Max ((\<lambda>m. int (end_index m)) ` {m \<in> set (concat (map snd a)). item m = 4}) = 65"
proof -
  have "case add_header_lines [] example_header_lines of
          Inl e \<Rightarrow> False
        | Inr a \<Rightarrow> header_indexes a = Inr example_ranges"
    by (simp add: example_header_lines_def example_ranges_def
      add_header_line_def is_complete_def pdf_header_rows_def pdf_header_lines_eval str_index_def startswith_def
      header_indexes_def merge_match_def header_range_def Let_def raw_columns_def col_sep_def)
  then obtain a where a: "add_header_lines [] example_header_lines = Inr a"
    and r: "header_indexes a = Inr example_ranges"
    by (auto split: sum.splits)
  have m8: "map_of example_ranges 8 =
          Some \<lparr>hi_name = ''quality'', hi_start = 99, hi_end = 106, hi_align = Middle\<rparr>"
    by (simp add: example_ranges_def)
  have m9: "map_of example_ranges 9 =
          Some \<lparr>hi_name = ''provided'', hi_start = 108, hi_end = - 1, hi_align = Left\<rparr>"
    by (simp add: example_ranges_def)
  have m4: "map_of example_ranges 4 =
          Some \<lparr>hi_name = ''batch'', hi_start = 50, hi_end = 65, hi_align = Middle\<rparr>"
    by (simp add: example_ranges_def)
  have al: "col_align (raw_columns ! 9) = Left"
    by (simp add: raw_columns_def)
  have al5: "col_align (raw_columns ! 5) = Middle"
    by (simp add: raw_columns_def)
  note t = header_indexes_ranges [OF r]
  from t have "8 + 1 < length raw_columns \<longrightarrow>
          (\<exists>r'. map_of example_ranges (8 + 1) = Some r' \<and>
             (col_align (raw_columns ! (8 + 1)) = Left \<longrightarrow>
                hi_end \<lparr>hi_name = ''quality'', hi_start = 99, hi_end = 106, hi_align = Middle\<rparr> =
                  hi_start r' - int (length col_sep)))"
    using m8 by blast
  with m9 al have s: "(106 :: int) = 108 - int (length col_sep)"
    by (simp add: length_raw_columns)
  from t m4 have
    "(0 :: nat) < 4 \<longrightarrow>
       hi_start \<lparr>hi_name = ''batch'', hi_start = 50, hi_end = 65, hi_align = Middle\<rparr> =
         Min ((\<lambda>m. int (start_index m)) ` {m \<in> set (concat (map snd a)). item m = 4})"
    and
    "4 + 1 < length raw_columns \<and> col_align (raw_columns ! (4 + 1)) \<noteq> Left \<longrightarrow>
       hi_end \<lparr>hi_name = ''batch'', hi_start = 50, hi_end = 65, hi_align = Middle\<rparr> =
         Max ((\<lambda>m. int (end_index m)) ` {m \<in> set (concat (map snd a)). item m = 4})"
    by blast+
  with al5 have
    mn: "Min ((\<lambda>m. int (start_index m)) ` {m \<in> set (concat (map snd a)). item m = 4}) = 50"
    and mx: "Max ((\<lambda>m. int (end_index m)) ` {m \<in> set (concat (map snd a)). item m = 4}) = 65"
    by (simp_all add: length_raw_columns)
  from a r m8 m9 al s m4 al5 mn mx show ?thesis by blast
qed

section \<open>Matching a line against the header template\<close>

text \<open>
  C5.  \<open>current_index\<close> is set to 0 once, before the loop over the template rows, and
  is kept when a row fails.  On the line below the scan of the first template row finds
  \<open>ARTG\<close> at the end of the line and then fails on \<open>Sponsor\<close>; the following rows are
  scanned from the end of the line, so none matches and nothing is recorded.  Scanned
  from the start of the line, the second template row matches all its fragments.
\<close>

theorem header_scan_not_restarted:
  "add_header_line [] ''testing testing testing testing provided evidence ARTG'' = Inr (False, []) \<and>
   match_lines ''testing testing testing testing provided evidence ARTG'' 0 [] 1
       (tl pdf_header_lines) =
     Inr (Some
       (1, [\<lparr>header = ''testing'', start_index = 0, end_index = 7, item = 5\<rparr>,
            \<lparr>header = ''testing'', start_index = 8, end_index = 15, item = 6\<rparr>,
            \<lparr>header = ''testing'', start_index = 16, end_index = 23, item = 7\<rparr>,
            \<lparr>header = ''testing'', start_index = 24, end_index = 31, item = 8\<rparr>,
            \<lparr>header = ''provided evidence'', start_index = 32, end_index = 49,
             item = 9\<rparr>]))"
  by (simp add: add_header_line_def is_complete_def pdf_header_rows_def raw_columns_def pdf_header_lines_eval
      str_index_def startswith_def)

end
